theory Spec2Isabelle
  imports Main "HOL-Library.Word"
begin

unbundle bit_operations_syntax

section \<open>Data model of rpi-pwrbtn.c\<close>

text \<open>
  The supervisor runs on an 8-bit AVR. Its whole state is the global struct \<open>data\<close>
  together with the port registers it writes. \<open>uint8_t\<close> and \<open>uint16_t\<close> are words, so
  \<open>+\<close> and \<open>-\<close> wrap around as the C operators do and \<open>\<le>\<close> is the unsigned order.
\<close>

type_synonym uint8_t = "8 word"
type_synonym uint16_t = "16 word"

datatype state_t =
  unknown_state | boot_state | idle_state | shutdown_state | poweroff_state

text \<open>
  The fields \<open>state\<close>, \<open>timer\<close>, \<open>seconds\<close> and \<open>pinb\<close> are those of the struct \<open>data\<close>;
  \<open>PORTB\<close> and \<open>DDRB\<close> are the output and direction registers of port B. The input
  register \<open>PINB\<close> is not part of the state: it is driven from outside, and every read of
  it is an argument of the function that reads it.
\<close>

record mcu =
  state :: state_t
  timer :: uint16_t
  seconds :: uint8_t
  pinb :: uint8_t
  PORTB :: uint8_t
  DDRB :: uint8_t

text \<open>Pin numbers: \<open>DDB0\<close> .. \<open>DDB4\<close> of avr/io.h are the bit positions 0 .. 4.\<close>

definition BTN :: nat where "BTN = 2"
definition LED :: nat where "LED = 1"
definition RPI_PWR :: nat where "RPI_PWR = 0"
definition RPI_IN :: nat where "RPI_IN = 3"
definition RPI_OUT :: nat where "RPI_OUT = 4"

definition BOOT_TIMEOUT :: uint8_t where "BOOT_TIMEOUT = 40"
definition SHUTDOWN_TIMEOUT :: uint8_t where "SHUTDOWN_TIMEOUT = 40"

definition BOOT_TICK :: uint16_t where "BOOT_TICK = 200"
definition SHUTDOWN_TICK :: uint16_t where "SHUTDOWN_TICK = 500"
definition BORK_TICK :: uint16_t where "BORK_TICK = 10"
definition SECOND :: uint16_t where "SECOND = 1000"

text \<open>\<open>_BV(n)\<close> of avr-libc is \<open>1 << n\<close>.\<close>

definition BV :: "nat \<Rightarrow> uint8_t" where
  "BV n = push_bit n 1"

text \<open>
  Modelled from the spec: the macros \<open>HIGH\<close>, \<open>LOW\<close>, \<open>TOGGLE\<close>, \<open>IN\<close>, \<open>OUT\<close> and \<open>DELAY\<close> of
  common/defs.h, a header that the source includes and that is not among the source
  files. The entry-action table of the spec reads \<open>HIGH(PORTB, LED)\<close> as "LED steady on",
  \<open>LOW(PORTB, LED)\<close> as "LED off", \<open>HIGH(PORTB, RPI_OUT)\<close> as "assert shutdown-signal
  line", \<open>LOW(PORTB, RPI_OUT)\<close> as "deassert shutdown-signal line" and
  \<open>TOGGLE(PORTB, LED)\<close> as "toggle LED": \<open>HIGH\<close> sets the bit of the register, \<open>LOW\<close> clears
  it and \<open>TOGGLE\<close> flips it. \<open>OUT\<close> and \<open>IN\<close> do the same on the direction register (a
  set bit is an output pin). \<open>DELAY\<close> is the blocking delay primitive: it takes time and
  changes nothing.
\<close>

definition HIGH :: "uint8_t \<Rightarrow> nat \<Rightarrow> uint8_t" where
  "HIGH reg b = reg OR BV b"

definition LOW :: "uint8_t \<Rightarrow> nat \<Rightarrow> uint8_t" where
  "LOW reg b = reg AND NOT (BV b)"

definition TOGGLE :: "uint8_t \<Rightarrow> nat \<Rightarrow> uint8_t" where
  "TOGGLE reg b = reg XOR BV b"

definition OUT :: "uint8_t \<Rightarrow> nat \<Rightarrow> uint8_t" where
  "OUT reg b = reg OR BV b"

definition IN :: "uint8_t \<Rightarrow> nat \<Rightarrow> uint8_t" where
  "IN reg b = reg AND NOT (BV b)"

definition DELAY :: "uint16_t \<Rightarrow> mcu \<Rightarrow> mcu" where
  "DELAY msecs m = m"

text \<open>
  \<open>sleep_mode()\<close> of avr/sleep.h halts the processor until the next interrupt. The
  interrupt itself is a separate step of the model, so the call changes nothing.
\<close>

definition sleep_mode :: "mcu \<Rightarrow> mcu" where
  "sleep_mode m = m"

section \<open>The functions of rpi-pwrbtn.c\<close>

text \<open>
  Every function takes the machine state and returns the updated one; a sequence of C
  statements is a chain of \<open>let\<close> bindings in the same order.
\<close>

definition delay :: "uint16_t \<Rightarrow> mcu \<Rightarrow> mcu" where
  "delay msecs m =
     (if state m = boot_state \<or> state m = shutdown_state then
        (let m = DELAY msecs m;
             m = m\<lparr>timer := timer m + msecs\<rparr>
         in if SECOND \<le> timer m then
              (let m = m\<lparr>seconds := seconds m + 1\<rparr>
               in m\<lparr>timer := timer m - SECOND\<rparr>)
            else m)
      else DELAY msecs m)"

definition state_change :: "state_t \<Rightarrow> mcu \<Rightarrow> mcu" where
  "state_change new_state m =
     (let m = m\<lparr>state := new_state\<rparr>
      in case state m of
           boot_state \<Rightarrow>
             (let m = m\<lparr>PORTB := LOW (PORTB m) LED\<rparr>;
                  m = m\<lparr>PORTB := LOW (PORTB m) RPI_PWR\<rparr>;
                  m = m\<lparr>PORTB := LOW (PORTB m) RPI_OUT\<rparr>;
                  m = m\<lparr>timer := 0\<rparr>
              in m\<lparr>seconds := 0\<rparr>)
         | shutdown_state \<Rightarrow>
             (let m = m\<lparr>PORTB := HIGH (PORTB m) RPI_OUT\<rparr>;
                  m = m\<lparr>PORTB := LOW (PORTB m) LED\<rparr>;
                  m = m\<lparr>timer := 0\<rparr>
              in m\<lparr>seconds := 0\<rparr>)
         | poweroff_state \<Rightarrow>
             (let m = m\<lparr>PORTB := HIGH (PORTB m) RPI_PWR\<rparr>;
                  m = m\<lparr>PORTB := LOW (PORTB m) LED\<rparr>
              in m\<lparr>PORTB := LOW (PORTB m) RPI_OUT\<rparr>)
         | idle_state \<Rightarrow> m\<lparr>PORTB := HIGH (PORTB m) LED\<rparr>
         | unknown_state \<Rightarrow> m)"

definition boot_tick :: "mcu \<Rightarrow> mcu" where
  "boot_tick m =
     (let m = m\<lparr>PORTB := TOGGLE (PORTB m) LED\<rparr>;
          m = delay BOOT_TICK m
      in if BOOT_TIMEOUT \<le> seconds m then state_change idle_state m else m)"

definition shutdown_tick :: "mcu \<Rightarrow> mcu" where
  "shutdown_tick m =
     (let m = m\<lparr>PORTB := TOGGLE (PORTB m) LED\<rparr>;
          m = delay SHUTDOWN_TICK m
      in if SHUTDOWN_TIMEOUT \<le> seconds m then state_change poweroff_state m else m)"

definition bork_tick :: "mcu \<Rightarrow> mcu" where
  "bork_tick m =
     (let m = m\<lparr>PORTB := TOGGLE (PORTB m) LED\<rparr>;
          m = DELAY BORK_TICK m;
          m = m\<lparr>PORTB := TOGGLE (PORTB m) LED\<rparr>
      in DELAY (BORK_TICK * 2) m)"

text \<open>
  \<open>setup\<close>, with the value \<open>pins\<close> that the read of \<open>PINB\<close> returns. The interrupt mask
  registers, the sleep mode and the ADC power switch configure the device and are not
  part of the modelled state. \<open>cli\<close> keeps the handler out until \<open>sei\<close>, which the source
  calls just before the final \<open>state_change\<close>; here \<open>setup\<close> runs as one step.
\<close>

definition setup_mcu :: "uint8_t \<Rightarrow> mcu \<Rightarrow> mcu" where
  "setup_mcu pins m =
     (let m = m\<lparr>DDRB := 0\<rparr>;
          m = m\<lparr>PORTB := 0\<rparr>;
          m = m\<lparr>DDRB := OUT (DDRB m) LED\<rparr>;
          m = m\<lparr>PORTB := LOW (PORTB m) LED\<rparr>;
          m = m\<lparr>DDRB := IN (DDRB m) BTN\<rparr>;
          m = m\<lparr>PORTB := LOW (PORTB m) BTN\<rparr>;
          m = m\<lparr>DDRB := OUT (DDRB m) RPI_PWR\<rparr>;
          m = m\<lparr>PORTB := HIGH (PORTB m) RPI_PWR\<rparr>;
          m = m\<lparr>DDRB := OUT (DDRB m) RPI_OUT\<rparr>;
          m = m\<lparr>PORTB := LOW (PORTB m) RPI_OUT\<rparr>;
          m = m\<lparr>DDRB := IN (DDRB m) RPI_IN\<rparr>;
          m = m\<lparr>PORTB := LOW (PORTB m) RPI_IN\<rparr>;
          m = m\<lparr>state := unknown_state\<rparr>;
          m = m\<lparr>timer := 0\<rparr>;
          m = m\<lparr>seconds := 0\<rparr>;
          m = m\<lparr>pinb := pins\<rparr>
      in state_change poweroff_state m)"

definition loop :: "mcu \<Rightarrow> mcu" where
  "loop m =
     (case state m of
        boot_state \<Rightarrow> boot_tick m
      | shutdown_state \<Rightarrow> shutdown_tick m
      | idle_state \<Rightarrow> sleep_mode m
      | poweroff_state \<Rightarrow> sleep_mode m
      | unknown_state \<Rightarrow> bork_tick m)"

text \<open>
  The interrupt handler \<open>ISR(PCINT0_vect)\<close>. \<open>PINB\<close> is volatile and the handler reads it
  up to four times: \<open>r1\<close> is the value read for \<open>pin_change\<close>, \<open>r2\<close> the value stored as the
  new snapshot, \<open>r3\<close> and \<open>r4\<close> the values tested in the two conditions. When the input
  lines hold their level while the handler runs, the four are the same value.
\<close>

definition PCINT0_vect :: "uint8_t \<Rightarrow> uint8_t \<Rightarrow> uint8_t \<Rightarrow> uint8_t \<Rightarrow> mcu \<Rightarrow> mcu" where
  "PCINT0_vect r1 r2 r3 r4 m =
     (let pin_change = r1 XOR pinb m;
          m = m\<lparr>pinb := r2\<rparr>;
          m = (if pin_change AND BV RPI_IN \<noteq> 0 \<and> r3 AND BV RPI_IN \<noteq> 0 then
                 (case state m of
                    boot_state \<Rightarrow> m\<lparr>seconds := BOOT_TIMEOUT\<rparr>
                  | idle_state \<Rightarrow> m
                  | poweroff_state \<Rightarrow> m
                  | shutdown_state \<Rightarrow> m
                  | unknown_state \<Rightarrow> m)
               else m)
      in if pin_change AND BV BTN \<noteq> 0 \<and> r4 AND BV BTN \<noteq> 0 then
           (case state m of
              idle_state \<Rightarrow> state_change shutdown_state m
            | poweroff_state \<Rightarrow> state_change boot_state m
            | boot_state \<Rightarrow> m
            | shutdown_state \<Rightarrow> m
            | unknown_state \<Rightarrow> m)
         else m)"

section \<open>Observables and runs\<close>

text \<open>
  The three output lines, read off \<open>PORTB\<close>. The entry action that the spec calls
  "assert host power-enable (power ON)" is \<open>LOW(PORTB, RPI_PWR)\<close> and the one it calls
  "deassert host power-enable (power OFF)" is \<open>HIGH(PORTB, RPI_PWR)\<close>: the power-enable
  line is active low. The shutdown-signal line and the LED are active high.
\<close>

definition led_on :: "mcu \<Rightarrow> bool" where
  "led_on m = bit (PORTB m) LED"

definition power_enable_asserted :: "mcu \<Rightarrow> bool" where
  "power_enable_asserted m = (\<not> bit (PORTB m) RPI_PWR)"

definition shutdown_signal_asserted :: "mcu \<Rightarrow> bool" where
  "shutdown_signal_asserted m = bit (PORTB m) RPI_OUT"

text \<open>
  The machine after a hardware reset: the registers are cleared and the zero-initialised
  struct \<open>data\<close> holds \<open>unknown_state = 0\<close>.
\<close>

definition reset_mcu :: mcu where
  "reset_mcu = \<lparr>state = unknown_state, timer = 0, seconds = 0, pinb = 0, PORTB = 0, DDRB = 0\<rparr>"

text \<open>
  After \<open>setup\<close> the program is an unbounded repetition of \<open>loop\<close>, with the interrupt
  handler running in between. A run is a list of events, each either one pass of \<open>loop\<close>
  or one execution of the handler with the four values it reads from \<open>PINB\<close>. In a
  run every interrupt is taken between two passes of \<open>loop\<close>; interrupts that land
  inside a pass are the subject of the last section of definitions.
\<close>

datatype event = Tick | Interrupt uint8_t uint8_t uint8_t uint8_t

fun step :: "event \<Rightarrow> mcu \<Rightarrow> mcu" where
  "step Tick m = loop m"
| "step (Interrupt r1 r2 r3 r4) m = PCINT0_vect r1 r2 r3 r4 m"

definition run :: "event list \<Rightarrow> mcu \<Rightarrow> mcu" where
  "run evs m = fold step evs m"

text \<open>
  The output levels that belong to each state: the levels that the entry actions leave
  behind along the transitions of the program. Booting and ShuttingDown say nothing about
  the LED, which their ticks flip. No level belongs to Unknown.
\<close>

definition state_levels :: "mcu \<Rightarrow> bool" where
  "state_levels m =
     (case state m of
        boot_state \<Rightarrow> power_enable_asserted m \<and> \<not> shutdown_signal_asserted m
      | idle_state \<Rightarrow> power_enable_asserted m \<and> \<not> shutdown_signal_asserted m \<and> led_on m
      | shutdown_state \<Rightarrow> power_enable_asserted m \<and> shutdown_signal_asserted m
      | poweroff_state \<Rightarrow>
          \<not> power_enable_asserted m \<and> \<not> shutdown_signal_asserted m \<and> \<not> led_on m
      | unknown_state \<Rightarrow> False)"

text \<open>
  One full power cycle as a run: the button is pressed (the handler reads \<open>p1\<close>), the
  boot runs its 200 ticks, the button is released (\<open>r\<close>) and pressed again (\<open>p2\<close>), and
  the shutdown runs its 80 ticks. The input lines are steady during each interrupt.
\<close>

definition power_cycle :: "uint8_t \<Rightarrow> uint8_t \<Rightarrow> uint8_t \<Rightarrow> event list" where
  "power_cycle p1 r p2 =
     [Interrupt p1 p1 p1 p1] @ replicate 200 Tick
       @ [Interrupt r r r r, Interrupt p2 p2 p2 p2] @ replicate 80 Tick"

section \<open>Interrupts inside a pass\<close>

text \<open>
  \<open>setup\<close> enables the interrupts with \<open>sei\<close> and the main line never masks them again,
  so the handler can also run inside \<open>setup\<close>'s final \<open>state_change\<close> and inside a pass
  of \<open>loop\<close>. The handler itself runs to completion. The functions of the main line
  are given a second time below, statement by statement as in the source, with a point
  after every statement and after every evaluated condition at which the handler may
  run; a single statement of the main line is not divided. A configuration pairs the interrupts still to come with the machine: the first
  component is a list with, for each such point in the order in which the main line
  reaches them, the executions of the handler taken there (each with the four values it
  reads from \<open>PINB\<close>; none, one or several). When the list is used up no further
  interrupt arrives.
\<close>

type_synonym reads = "uint8_t \<times> uint8_t \<times> uint8_t \<times> uint8_t"
type_synonym cfg = "reads list list \<times> mcu"

definition interrupts :: "reads list \<Rightarrow> mcu \<Rightarrow> mcu" where
  "interrupts b m = fold (\<lambda>(r1, r2, r3, r4). PCINT0_vect r1 r2 r3 r4) b m"

fun preempt :: "cfg \<Rightarrow> cfg" where
  "preempt ([], m) = ([], m)"
| "preempt (b # bs, m) = (bs, interrupts b m)"

text \<open>One statement of the main line, followed by the interrupts taken after it.\<close>

definition stmt :: "(mcu \<Rightarrow> mcu) \<Rightarrow> cfg \<Rightarrow> cfg" where
  "stmt f c = preempt (fst c, f (snd c))"

definition delay_p :: "uint16_t \<Rightarrow> cfg \<Rightarrow> cfg" where
  "delay_p msecs c =
     (let s = state (snd c);
          c = preempt c
      in if s = boot_state \<or> s = shutdown_state then
           (let c = stmt (DELAY msecs) c;
                c = stmt (\<lambda>m. m\<lparr>timer := timer m + msecs\<rparr>) c;
                carry = (SECOND \<le> timer (snd c));
                c = preempt c
            in if carry then
                 (let c = stmt (\<lambda>m. m\<lparr>seconds := seconds m + 1\<rparr>) c
                  in stmt (\<lambda>m. m\<lparr>timer := timer m - SECOND\<rparr>) c)
               else c)
         else stmt (DELAY msecs) c)"

definition state_change_p :: "state_t \<Rightarrow> cfg \<Rightarrow> cfg" where
  "state_change_p new_state c =
     (let c = stmt (\<lambda>m. m\<lparr>state := new_state\<rparr>) c;
          s = state (snd c);
          c = preempt c
      in case s of
           boot_state \<Rightarrow>
             (let c = stmt (\<lambda>m. m\<lparr>PORTB := LOW (PORTB m) LED\<rparr>) c;
                  c = stmt (\<lambda>m. m\<lparr>PORTB := LOW (PORTB m) RPI_PWR\<rparr>) c;
                  c = stmt (\<lambda>m. m\<lparr>PORTB := LOW (PORTB m) RPI_OUT\<rparr>) c;
                  c = stmt (\<lambda>m. m\<lparr>timer := 0\<rparr>) c
              in stmt (\<lambda>m. m\<lparr>seconds := 0\<rparr>) c)
         | shutdown_state \<Rightarrow>
             (let c = stmt (\<lambda>m. m\<lparr>PORTB := HIGH (PORTB m) RPI_OUT\<rparr>) c;
                  c = stmt (\<lambda>m. m\<lparr>PORTB := LOW (PORTB m) LED\<rparr>) c;
                  c = stmt (\<lambda>m. m\<lparr>timer := 0\<rparr>) c
              in stmt (\<lambda>m. m\<lparr>seconds := 0\<rparr>) c)
         | poweroff_state \<Rightarrow>
             (let c = stmt (\<lambda>m. m\<lparr>PORTB := HIGH (PORTB m) RPI_PWR\<rparr>) c;
                  c = stmt (\<lambda>m. m\<lparr>PORTB := LOW (PORTB m) LED\<rparr>) c
              in stmt (\<lambda>m. m\<lparr>PORTB := LOW (PORTB m) RPI_OUT\<rparr>) c)
         | idle_state \<Rightarrow> stmt (\<lambda>m. m\<lparr>PORTB := HIGH (PORTB m) LED\<rparr>) c
         | unknown_state \<Rightarrow> c)"

definition boot_tick_p :: "cfg \<Rightarrow> cfg" where
  "boot_tick_p c =
     (let c = stmt (\<lambda>m. m\<lparr>PORTB := TOGGLE (PORTB m) LED\<rparr>) c;
          c = delay_p BOOT_TICK c;
          timeout = (BOOT_TIMEOUT \<le> seconds (snd c));
          c = preempt c
      in if timeout then state_change_p idle_state c else c)"

definition shutdown_tick_p :: "cfg \<Rightarrow> cfg" where
  "shutdown_tick_p c =
     (let c = stmt (\<lambda>m. m\<lparr>PORTB := TOGGLE (PORTB m) LED\<rparr>) c;
          c = delay_p SHUTDOWN_TICK c;
          timeout = (SHUTDOWN_TIMEOUT \<le> seconds (snd c));
          c = preempt c
      in if timeout then state_change_p poweroff_state c else c)"

definition bork_tick_p :: "cfg \<Rightarrow> cfg" where
  "bork_tick_p c =
     (let c = stmt (\<lambda>m. m\<lparr>PORTB := TOGGLE (PORTB m) LED\<rparr>) c;
          c = stmt (DELAY BORK_TICK) c;
          c = stmt (\<lambda>m. m\<lparr>PORTB := TOGGLE (PORTB m) LED\<rparr>) c
      in stmt (DELAY (BORK_TICK * 2)) c)"

definition loop_p :: "cfg \<Rightarrow> cfg" where
  "loop_p c =
     (let s = state (snd c);
          c = preempt c
      in case s of
           boot_state \<Rightarrow> boot_tick_p c
         | shutdown_state \<Rightarrow> shutdown_tick_p c
         | idle_state \<Rightarrow> stmt sleep_mode c
         | poweroff_state \<Rightarrow> stmt sleep_mode c
         | unknown_state \<Rightarrow> bork_tick_p c)"

text \<open>
  \<open>setup\<close> runs with the interrupts masked up to \<open>sei\<close>; the first point at which the
  handler may run is the one after \<open>sei\<close>, before the final \<open>state_change\<close>.
\<close>

definition setup_p :: "uint8_t \<Rightarrow> cfg \<Rightarrow> cfg" where
  "setup_p pins c =
     (let m = snd c;
          m = m\<lparr>DDRB := 0\<rparr>;
          m = m\<lparr>PORTB := 0\<rparr>;
          m = m\<lparr>DDRB := OUT (DDRB m) LED\<rparr>;
          m = m\<lparr>PORTB := LOW (PORTB m) LED\<rparr>;
          m = m\<lparr>DDRB := IN (DDRB m) BTN\<rparr>;
          m = m\<lparr>PORTB := LOW (PORTB m) BTN\<rparr>;
          m = m\<lparr>DDRB := OUT (DDRB m) RPI_PWR\<rparr>;
          m = m\<lparr>PORTB := HIGH (PORTB m) RPI_PWR\<rparr>;
          m = m\<lparr>DDRB := OUT (DDRB m) RPI_OUT\<rparr>;
          m = m\<lparr>PORTB := LOW (PORTB m) RPI_OUT\<rparr>;
          m = m\<lparr>DDRB := IN (DDRB m) RPI_IN\<rparr>;
          m = m\<lparr>PORTB := LOW (PORTB m) RPI_IN\<rparr>;
          m = m\<lparr>state := unknown_state\<rparr>;
          m = m\<lparr>timer := 0\<rparr>;
          m = m\<lparr>seconds := 0\<rparr>;
          m = m\<lparr>pinb := pins\<rparr>;
          c = preempt (fst c, m)
      in state_change_p poweroff_state c)"

text \<open>
  The output levels that belong to each state wherever the interrupts land: those of
  \<open>state_levels\<close> without the power-enable level of Booting, Idle and ShuttingDown. An
  interrupt taken inside the entry into PoweredOff can leave the machine in Booting with
  power-enable deasserted, and Idle and ShuttingDown inherit that level.
\<close>

definition pass_levels :: "mcu \<Rightarrow> bool" where
  "pass_levels m =
     (case state m of
        boot_state \<Rightarrow> \<not> shutdown_signal_asserted m
      | idle_state \<Rightarrow> \<not> shutdown_signal_asserted m \<and> led_on m
      | shutdown_state \<Rightarrow> shutdown_signal_asserted m
      | poweroff_state \<Rightarrow>
          \<not> power_enable_asserted m \<and> \<not> shutdown_signal_asserted m \<and> \<not> led_on m
      | unknown_state \<Rightarrow> False)"

section \<open>Bits of the port register\<close>

lemma bit_HIGH: "bit (HIGH r b) k \<longleftrightarrow> (k = b \<and> b < 8) \<or> bit r k"
  by (auto simp: HIGH_def BV_def bit_simps)

lemma bit_LOW: "bit (LOW r b) k \<longleftrightarrow> bit r k \<and> k \<noteq> b"
  by (auto simp: LOW_def BV_def bit_simps dest: bit_imp_le_length)

lemma bit_TOGGLE: "bit (TOGGLE r b) k \<longleftrightarrow> (bit r k \<noteq> (k = b \<and> b < 8))"
  by (auto simp: TOGGLE_def BV_def bit_simps)

lemmas pin_defs = LED_def BTN_def RPI_PWR_def RPI_IN_def RPI_OUT_def
lemmas out_defs = led_on_def power_enable_asserted_def shutdown_signal_asserted_def
lemmas bit_macros = bit_HIGH bit_LOW bit_TOGGLE

lemma TOGGLE_TOGGLE: "TOGGLE (TOGGLE r b) b = r"
  by (simp add: TOGGLE_def bit.xor_self xor.assoc)

lemma word_eq_bits: "(\<And>k. bit a k = bit b k) \<Longrightarrow> a = (b :: uint8_t)"
  by (simp add: bit_eq_iff)

section \<open>Entry actions\<close>

lemma state_change_simps:
  "state_change boot_state m =
     m\<lparr>state := boot_state, PORTB := LOW (LOW (LOW (PORTB m) LED) RPI_PWR) RPI_OUT,
       timer := 0, seconds := 0\<rparr>"
  "state_change shutdown_state m =
     m\<lparr>state := shutdown_state, PORTB := LOW (HIGH (PORTB m) RPI_OUT) LED,
       timer := 0, seconds := 0\<rparr>"
  "state_change poweroff_state m =
     m\<lparr>state := poweroff_state, PORTB := LOW (LOW (HIGH (PORTB m) RPI_PWR) LED) RPI_OUT\<rparr>"
  "state_change idle_state m = m\<lparr>state := idle_state, PORTB := HIGH (PORTB m) LED\<rparr>"
  "state_change unknown_state m = m\<lparr>state := unknown_state\<rparr>"
  by (simp_all add: state_change_def Let_def)

lemma state_state_change: "state (state_change s m) = s"
  by (cases s) (simp_all add: state_change_simps)

lemma state_change_twice: "state_change s (state_change s m) = state_change s m"
proof -
  have "LOW (LOW (LOW (LOW (LOW (LOW p LED) RPI_PWR) RPI_OUT) LED) RPI_PWR) RPI_OUT
        = LOW (LOW (LOW p LED) RPI_PWR) RPI_OUT" for p
    by (rule word_eq_bits) (auto simp: bit_macros)
  moreover have "LOW (HIGH (LOW (HIGH p RPI_OUT) LED) RPI_OUT) LED
        = LOW (HIGH p RPI_OUT) LED" for p
    by (rule word_eq_bits) (auto simp: bit_macros)
  moreover have "LOW (LOW (HIGH (LOW (LOW (HIGH p RPI_PWR) LED) RPI_OUT) RPI_PWR) LED) RPI_OUT
        = LOW (LOW (HIGH p RPI_PWR) LED) RPI_OUT" for p
    by (rule word_eq_bits) (auto simp: bit_macros)
  moreover have "HIGH (HIGH p LED) LED = HIGH p LED" for p
    by (rule word_eq_bits) (auto simp: bit_macros)
  ultimately show ?thesis
    by (cases s) (simp_all add: state_change_simps)
qed

text \<open>
  Claim C1. For every \<open>new_state\<close>, \<open>state_change new_state\<close> sets the state to
  \<open>new_state\<close> whatever the machine was, and does exactly the entry action of that state.
  Booting: LED off, power-enable asserted, shutdown-signal deasserted, both counters
  zero. ShuttingDown: shutdown-signal asserted, LED off, both counters zero (the
  power-enable line is not written). PoweredOff: power-enable deasserted, LED off,
  shutdown-signal deasserted, counters as they were. Idle: LED on and nothing else.
  Unknown: nothing but the state. Each equation gives the whole resulting machine, so
  nothing else is written. Entering a state a second time gives the same machine as
  entering it once: the entry action runs again, and the counters of a timed state are
  zero again.
\<close>

theorem state_change_entry_action:
  "state (state_change new_state m) = new_state
   \<and> state_change boot_state m =
       m\<lparr>state := boot_state, PORTB := LOW (LOW (LOW (PORTB m) LED) RPI_PWR) RPI_OUT,
         timer := 0, seconds := 0\<rparr>
   \<and> \<not> led_on (state_change boot_state m)
   \<and> power_enable_asserted (state_change boot_state m)
   \<and> \<not> shutdown_signal_asserted (state_change boot_state m)
   \<and> state_change shutdown_state m =
       m\<lparr>state := shutdown_state, PORTB := LOW (HIGH (PORTB m) RPI_OUT) LED,
         timer := 0, seconds := 0\<rparr>
   \<and> shutdown_signal_asserted (state_change shutdown_state m)
   \<and> \<not> led_on (state_change shutdown_state m)
   \<and> power_enable_asserted (state_change shutdown_state m) = power_enable_asserted m
   \<and> state_change poweroff_state m =
       m\<lparr>state := poweroff_state, PORTB := LOW (LOW (HIGH (PORTB m) RPI_PWR) LED) RPI_OUT\<rparr>
   \<and> \<not> power_enable_asserted (state_change poweroff_state m)
   \<and> \<not> led_on (state_change poweroff_state m)
   \<and> \<not> shutdown_signal_asserted (state_change poweroff_state m)
   \<and> timer (state_change poweroff_state m) = timer m
   \<and> seconds (state_change poweroff_state m) = seconds m
   \<and> state_change idle_state m = m\<lparr>state := idle_state, PORTB := HIGH (PORTB m) LED\<rparr>
   \<and> led_on (state_change idle_state m)
   \<and> power_enable_asserted (state_change idle_state m) = power_enable_asserted m
   \<and> shutdown_signal_asserted (state_change idle_state m) = shutdown_signal_asserted m
   \<and> state_change unknown_state m = m\<lparr>state := unknown_state\<rparr>
   \<and> state_change new_state (state_change new_state m) = state_change new_state m"
  by (simp add: state_state_change state_change_twice state_change_simps out_defs
      bit_macros pin_defs)

section \<open>The timing accumulator and the ticks\<close>

lemma delay_timed:
  "state m = boot_state \<or> state m = shutdown_state \<Longrightarrow>
   delay msecs m =
     (if SECOND \<le> timer m + msecs
      then m\<lparr>timer := timer m + msecs - SECOND, seconds := seconds m + 1\<rparr>
      else m\<lparr>timer := timer m + msecs\<rparr>)"
  by (simp add: delay_def DELAY_def Let_def)

lemma delay_untimed:
  "state m \<noteq> boot_state \<Longrightarrow> state m \<noteq> shutdown_state \<Longrightarrow> delay msecs m = m"
  by (simp add: delay_def DELAY_def)

lemma delay_fields [simp]:
  "state (delay msecs m) = state m"
  "PORTB (delay msecs m) = PORTB m"
  "pinb (delay msecs m) = pinb m"
  "DDRB (delay msecs m) = DDRB m"
  by (simp_all add: delay_def DELAY_def Let_def)

lemma seconds_delay:
  "seconds (delay msecs m) = seconds m \<or> seconds (delay msecs m) = seconds m + 1"
  by (simp add: delay_def DELAY_def Let_def)

text \<open>
  Claim C4. In Booting and in ShuttingDown, \<open>delay msecs\<close> adds \<open>msecs\<close> to \<open>timer\<close>; when
  the sum is at least 1000 it adds one to \<open>seconds\<close> and takes 1000 off \<open>timer\<close>, once,
  however large the sum is. In Idle, PoweredOff and Unknown the machine is left as it
  was. The sum, the comparison and the increment are those of the 16-bit and 8-bit
  counters of the source.
\<close>

theorem delay_counters:
  "delay msecs (m\<lparr>state := boot_state\<rparr>) =
     (if SECOND \<le> timer m + msecs
      then m\<lparr>state := boot_state, timer := timer m + msecs - SECOND,
             seconds := seconds m + 1\<rparr>
      else m\<lparr>state := boot_state, timer := timer m + msecs\<rparr>)
   \<and> delay msecs (m\<lparr>state := shutdown_state\<rparr>) =
     (if SECOND \<le> timer m + msecs
      then m\<lparr>state := shutdown_state, timer := timer m + msecs - SECOND,
             seconds := seconds m + 1\<rparr>
      else m\<lparr>state := shutdown_state, timer := timer m + msecs\<rparr>)
   \<and> delay msecs (m\<lparr>state := idle_state\<rparr>) = m\<lparr>state := idle_state\<rparr>
   \<and> delay msecs (m\<lparr>state := poweroff_state\<rparr>) = m\<lparr>state := poweroff_state\<rparr>
   \<and> delay msecs (m\<lparr>state := unknown_state\<rparr>) = m\<lparr>state := unknown_state\<rparr>"
  by (simp add: delay_timed delay_untimed)

text \<open>
  The same step read as numbers: as long as the 16-bit sum and the 8-bit increment do not
  wrap around, the counters change as the unbounded sum says.
\<close>

lemma delay_unat:
  assumes "state m = boot_state \<or> state m = shutdown_state"
    and "unat (timer m) + unat msecs < 65536" and "unat (seconds m) < 255"
  shows "unat (timer (delay msecs m)) =
           (if 1000 \<le> unat (timer m) + unat msecs then unat (timer m) + unat msecs - 1000
            else unat (timer m) + unat msecs)
         \<and> unat (seconds (delay msecs m)) =
           (if 1000 \<le> unat (timer m) + unat msecs then unat (seconds m) + 1
            else unat (seconds m))"
proof -
  have sum: "unat (timer m + msecs) = unat (timer m) + unat msecs"
    using assms(2) by (simp add: unat_add_lem [THEN iffD1])
  have le: "SECOND \<le> timer m + msecs \<longleftrightarrow> 1000 \<le> unat (timer m) + unat msecs"
    by (simp add: word_le_nat_alt SECOND_def sum)
  have sub: "SECOND \<le> timer m + msecs \<Longrightarrow>
      unat (timer m + msecs - SECOND) = unat (timer m) + unat msecs - 1000"
    by (simp add: unat_sub sum SECOND_def)
  have inc: "unat (seconds m + 1) = unat (seconds m) + 1"
    using assms(3) by (simp add: unat_add_lem [THEN iffD1])
  show ?thesis
    using assms(1) le sub inc sum by (simp add: delay_timed)
qed

lemma loop_boot: "state m = boot_state \<Longrightarrow> loop m = boot_tick m"
  by (simp add: loop_def)

lemma loop_shutdown: "state m = shutdown_state \<Longrightarrow> loop m = shutdown_tick m"
  by (simp add: loop_def)

lemma loop_sleep: "state m = idle_state \<or> state m = poweroff_state \<Longrightarrow> loop m = m"
  by (auto simp: loop_def sleep_mode_def)

lemma funpow_fixed: "f x = x \<Longrightarrow> (f ^^ n) x = x"
  by (induction n) simp_all

lemma below_timeout: "j < 40 \<Longrightarrow> \<not> 40 \<le> (of_nat j :: uint8_t)"
  by (simp add: word_le_nat_alt unat_of_nat)

lemma below_timeout_Suc: "Suc j < 40 \<Longrightarrow> \<not> 40 \<le> (of_nat j + 1 :: uint8_t)"
  using below_timeout [of "Suc j"] by (simp add: add.commute)

lemma mod5_cases:
  "n mod 5 = 0 \<or> n mod 5 = 1 \<or> n mod 5 = 2 \<or> n mod 5 = 3 \<or> n mod 5 = (4::nat)"
  by presburger

subsection \<open>The boot phase: 200 ticks of 200 ms\<close>

text \<open>
  Tick \<open>n + 1\<close> of a boot that started with both counters zero, as long as it is not the
  200th: the LED is flipped, \<open>timer\<close> runs through 0, 200, 400, 600, 800 and \<open>seconds\<close>
  counts the full groups of five ticks.
\<close>

lemma boot_tick_running:
  assumes "state m = boot_state" and "timer m = of_nat (200 * (n mod 5))"
    and "seconds m = of_nat (n div 5)" and "Suc n < 200"
  shows "boot_tick m =
    m\<lparr>PORTB := TOGGLE (PORTB m) LED, timer := of_nat (200 * (Suc n mod 5)),
      seconds := of_nat (Suc n div 5)\<rparr>"
proof -
  have s: "Suc n div 5 < 40" using assms(4) by simp
  have s': "n div 5 < 40" using assms(4) by simp
  from mod5_cases [of n] show ?thesis
  proof (elim disjE)
    assume "n mod 5 = 4"
    moreover from this have "Suc n mod 5 = 0" and "Suc n div 5 = Suc (n div 5)"
      by (simp_all add: mod_Suc div_Suc)
    ultimately show ?thesis
      using assms(1-3) s below_timeout_Suc [of "n div 5"]
      by (simp add: boot_tick_def Let_def delay_timed BOOT_TICK_def SECOND_def BOOT_TIMEOUT_def
          add.commute)
  qed (use assms(1-3) below_timeout [OF s'] in
        \<open>simp_all add: boot_tick_def Let_def delay_timed BOOT_TICK_def SECOND_def
           BOOT_TIMEOUT_def mod_Suc div_Suc\<close>)
qed

lemma boot_tick_last:
  assumes "state m = boot_state" and "timer m = 800" and "seconds m = 39"
  shows "boot_tick m =
    state_change idle_state (m\<lparr>PORTB := TOGGLE (PORTB m) LED, timer := 0, seconds := 40\<rparr>)"
  using assms
  by (simp add: boot_tick_def Let_def delay_timed BOOT_TICK_def SECOND_def BOOT_TIMEOUT_def)

lemma boot_tick_timeout:
  assumes "state m = boot_state" and "seconds m = BOOT_TIMEOUT"
  shows "state (boot_tick m) = idle_state"
proof -
  let ?m = "delay BOOT_TICK (m\<lparr>PORTB := TOGGLE (PORTB m) LED\<rparr>)"
  have "seconds ?m = 40 \<or> seconds ?m = 40 + 1"
    using seconds_delay [of BOOT_TICK "m\<lparr>PORTB := TOGGLE (PORTB m) LED\<rparr>"] assms
    by (simp add: BOOT_TIMEOUT_def)
  then have "BOOT_TIMEOUT \<le> seconds ?m"
    by (auto simp: BOOT_TIMEOUT_def)
  then show ?thesis
    by (simp add: boot_tick_def Let_def state_state_change)
qed

lemma boot_phase_running:
  assumes "state m = boot_state" and "timer m = 0" and "seconds m = 0"
  shows "n < 200 \<Longrightarrow>
    (loop ^^ n) m =
      m\<lparr>PORTB := (if even n then PORTB m else TOGGLE (PORTB m) LED),
        timer := of_nat (200 * (n mod 5)), seconds := of_nat (n div 5)\<rparr>"
proof (induction n)
  case 0
  with assms show ?case by simp
next
  case (Suc n)
  let ?m = "m\<lparr>PORTB := (if even n then PORTB m else TOGGLE (PORTB m) LED),
        timer := of_nat (200 * (n mod 5)), seconds := of_nat (n div 5)\<rparr>"
  from Suc have run: "(loop ^^ n) m = ?m" by simp
  have "loop ?m = boot_tick ?m"
    using assms(1) by (simp add: loop_boot)
  also have "\<dots> = ?m\<lparr>PORTB := TOGGLE (PORTB ?m) LED,
      timer := of_nat (200 * (Suc n mod 5)), seconds := of_nat (Suc n div 5)\<rparr>"
    using assms(1) Suc.prems by (intro boot_tick_running) simp_all
  finally show ?case
    using run by (simp add: TOGGLE_TOGGLE)
qed

lemma boot_phase_done:
  assumes "state m = boot_state" and "timer m = 0" and "seconds m = 0" and "200 \<le> n"
  shows "(loop ^^ n) m =
    m\<lparr>state := idle_state, PORTB := HIGH (PORTB m) LED, timer := 0, seconds := 40\<rparr>"
proof -
  let ?idle = "m\<lparr>state := idle_state, PORTB := HIGH (PORTB m) LED, timer := 0, seconds := 40\<rparr>"
  have "(loop ^^ 199) m = m\<lparr>PORTB := TOGGLE (PORTB m) LED, timer := 800, seconds := 39\<rparr>"
    using boot_phase_running [OF assms(1-3), of 199] by simp
  moreover have "(loop ^^ 200) m = loop ((loop ^^ 199) m)"
    using funpow.simps(2) [of 199 loop] by simp
  ultimately have "(loop ^^ 200) m = ?idle"
    using assms(1)
    by (simp add: loop_boot boot_tick_last state_change_simps TOGGLE_TOGGLE)
  moreover have "(loop ^^ (n - 200)) ?idle = ?idle"
    by (rule funpow_fixed) (simp add: loop_sleep)
  moreover have "(loop ^^ n) m = (loop ^^ (n - 200)) ((loop ^^ 200) m)"
    using assms(4) funpow_add [of "n - 200" 200 loop] by simp
  ultimately show ?thesis by simp
qed

text \<open>
  Claim C5, as the source has it. A boot tick advances the clock by 200 ms, so five ticks
  make one second and the 40 seconds of \<open>BOOT_TIMEOUT\<close> take 200 ticks. From a fresh entry
  into Booting and with no interrupt, the state after \<open>n\<close> passes of \<open>loop\<close> is Booting for
  every \<open>n\<close> below 200 and Idle from the 200th pass on: there is one transition, made by
  the 200th tick, when \<open>seconds\<close> reaches 40.
\<close>

theorem boot_timeout_after_200_ticks:
  "state ((loop ^^ n) (state_change boot_state m)) =
     (if n < 200 then boot_state else idle_state)
   \<and> seconds ((loop ^^ n) (state_change boot_state m)) =
     (if n < 200 then of_nat (n div 5) else 40)"
proof -
  let ?m = "state_change boot_state m"
  have m: "state ?m = boot_state" "timer ?m = 0" "seconds ?m = 0"
    by (simp_all add: state_change_simps)
  show ?thesis
  proof (cases "n < 200")
    case True
    then show ?thesis
      using boot_phase_running [OF m, of n] m(1) by simp
  next
    case False
    then have "200 \<le> n" by simp
    from boot_phase_done [OF m this] False show ?thesis by simp
  qed
qed

text \<open>
  Claim C5 as it is written, at the machine that enters Booting after a reset: 40 boot
  ticks are 8 seconds, and the state is still Booting.
\<close>

theorem boot_40_ticks_counterexample:
  "state ((loop ^^ 40) (state_change boot_state reset_mcu)) = boot_state
   \<and> seconds ((loop ^^ 40) (state_change boot_state reset_mcu)) = 8"
proof -
  have m: "state (state_change boot_state reset_mcu) = boot_state"
    "timer (state_change boot_state reset_mcu) = 0"
    "seconds (state_change boot_state reset_mcu) = 0"
    by (simp_all add: state_change_simps)
  show ?thesis
    using boot_phase_running [OF m, of 40] m(1) by simp
qed

subsection \<open>The shutdown phase: 80 ticks of 500 ms\<close>

lemma shutdown_tick_running:
  assumes "state m = shutdown_state" and "timer m = of_nat (500 * (n mod 2))"
    and "seconds m = of_nat (n div 2)" and "Suc n < 80"
  shows "shutdown_tick m =
    m\<lparr>PORTB := TOGGLE (PORTB m) LED, timer := of_nat (500 * (Suc n mod 2)),
      seconds := of_nat (Suc n div 2)\<rparr>"
proof (cases "n mod 2 = 1")
  case True
  then have "Suc n mod 2 = 0" and "Suc n div 2 = Suc (n div 2)"
    by (simp_all add: mod_Suc div_Suc)
  moreover have "Suc (n div 2) < 40"
    using assms(4) True by presburger
  ultimately show ?thesis
    using True assms(1-3) below_timeout_Suc [of "n div 2"]
    by (simp add: shutdown_tick_def Let_def delay_timed SHUTDOWN_TICK_def SECOND_def
        SHUTDOWN_TIMEOUT_def add.commute)
next
  case False
  then have "n mod 2 = 0" by presburger
  moreover have "n div 2 < 40" using assms(4) by simp
  ultimately show ?thesis
    using assms(1-3) below_timeout [of "n div 2"]
    by (simp add: shutdown_tick_def Let_def delay_timed SHUTDOWN_TICK_def SECOND_def
        SHUTDOWN_TIMEOUT_def mod_Suc div_Suc)
qed

lemma shutdown_tick_last:
  assumes "state m = shutdown_state" and "timer m = 500" and "seconds m = 39"
  shows "shutdown_tick m =
    state_change poweroff_state
      (m\<lparr>PORTB := TOGGLE (PORTB m) LED, timer := 0, seconds := 40\<rparr>)"
  using assms
  by (simp add: shutdown_tick_def Let_def delay_timed SHUTDOWN_TICK_def SECOND_def
      SHUTDOWN_TIMEOUT_def)

lemma shutdown_phase_running:
  assumes "state m = shutdown_state" and "timer m = 0" and "seconds m = 0"
  shows "n < 80 \<Longrightarrow>
    (loop ^^ n) m =
      m\<lparr>PORTB := (if even n then PORTB m else TOGGLE (PORTB m) LED),
        timer := of_nat (500 * (n mod 2)), seconds := of_nat (n div 2)\<rparr>"
proof (induction n)
  case 0
  with assms show ?case by simp
next
  case (Suc n)
  let ?m = "m\<lparr>PORTB := (if even n then PORTB m else TOGGLE (PORTB m) LED),
        timer := of_nat (500 * (n mod 2)), seconds := of_nat (n div 2)\<rparr>"
  from Suc have run: "(loop ^^ n) m = ?m" by simp
  have "loop ?m = shutdown_tick ?m"
    using assms(1) by (simp add: loop_shutdown)
  also have "\<dots> = ?m\<lparr>PORTB := TOGGLE (PORTB ?m) LED,
      timer := of_nat (500 * (Suc n mod 2)), seconds := of_nat (Suc n div 2)\<rparr>"
    using assms(1) Suc.prems by (intro shutdown_tick_running) simp_all
  finally show ?case
    using run by (simp add: TOGGLE_TOGGLE)
qed

lemma shutdown_phase_done:
  assumes "state m = shutdown_state" and "timer m = 0" and "seconds m = 0" and "80 \<le> n"
  shows "(loop ^^ n) m =
    m\<lparr>state := poweroff_state, PORTB := LOW (LOW (HIGH (PORTB m) RPI_PWR) LED) RPI_OUT,
      timer := 0, seconds := 40\<rparr>"
proof -
  let ?off = "m\<lparr>state := poweroff_state,
      PORTB := LOW (LOW (HIGH (PORTB m) RPI_PWR) LED) RPI_OUT, timer := 0, seconds := 40\<rparr>"
  have "(loop ^^ 79) m = m\<lparr>PORTB := TOGGLE (PORTB m) LED, timer := 500, seconds := 39\<rparr>"
    using shutdown_phase_running [OF assms(1-3), of 79] by simp
  moreover have "(loop ^^ 80) m = loop ((loop ^^ 79) m)"
    using funpow.simps(2) [of 79 loop] by simp
  ultimately have "(loop ^^ 80) m = ?off"
    using assms(1)
    by (simp add: loop_shutdown shutdown_tick_last state_change_simps TOGGLE_TOGGLE)
  moreover have "(loop ^^ (n - 80)) ?off = ?off"
    by (rule funpow_fixed) (simp add: loop_sleep)
  moreover have "(loop ^^ n) m = (loop ^^ (n - 80)) ((loop ^^ 80) m)"
    using assms(4) funpow_add [of "n - 80" 80 loop] by simp
  ultimately show ?thesis by simp
qed

section \<open>The interrupt handler\<close>

text \<open>The handler, state by state.\<close>

lemma PCINT0_vect_cases:
  "PCINT0_vect r1 r2 r3 r4 m =
     (case state m of
        boot_state \<Rightarrow>
          (if (r1 XOR pinb m) AND BV RPI_IN \<noteq> 0 \<and> r3 AND BV RPI_IN \<noteq> 0
           then m\<lparr>pinb := r2, seconds := BOOT_TIMEOUT\<rparr> else m\<lparr>pinb := r2\<rparr>)
      | idle_state \<Rightarrow>
          (if (r1 XOR pinb m) AND BV BTN \<noteq> 0 \<and> r4 AND BV BTN \<noteq> 0
           then state_change shutdown_state (m\<lparr>pinb := r2\<rparr>) else m\<lparr>pinb := r2\<rparr>)
      | poweroff_state \<Rightarrow>
          (if (r1 XOR pinb m) AND BV BTN \<noteq> 0 \<and> r4 AND BV BTN \<noteq> 0
           then state_change boot_state (m\<lparr>pinb := r2\<rparr>) else m\<lparr>pinb := r2\<rparr>)
      | shutdown_state \<Rightarrow> m\<lparr>pinb := r2\<rparr>
      | unknown_state \<Rightarrow> m\<lparr>pinb := r2\<rparr>)"
  by (cases "state m") (simp_all add: PCINT0_vect_def Let_def)

text \<open>
  Claim C2. Let the button line have a rising edge in an interrupt: it differs from the
  snapshot and it is read asserted. From Idle the handler is the transition to
  ShuttingDown, and the shutdown-signal is asserted. From PoweredOff it is the transition
  to Booting, with power-enable asserted and shutdown-signal deasserted. From Booting,
  ShuttingDown and Unknown the state and the port register are as before.
\<close>

theorem button_rising_edge:
  assumes "(r1 XOR pinb m) AND BV BTN \<noteq> 0" and "r4 AND BV BTN \<noteq> 0"
  shows
  "PCINT0_vect r1 r2 r3 r4 (m\<lparr>state := idle_state\<rparr>) =
     state_change shutdown_state (m\<lparr>state := idle_state, pinb := r2\<rparr>)
   \<and> state (PCINT0_vect r1 r2 r3 r4 (m\<lparr>state := idle_state\<rparr>)) = shutdown_state
   \<and> shutdown_signal_asserted (PCINT0_vect r1 r2 r3 r4 (m\<lparr>state := idle_state\<rparr>))
   \<and> PCINT0_vect r1 r2 r3 r4 (m\<lparr>state := poweroff_state\<rparr>) =
     state_change boot_state (m\<lparr>state := poweroff_state, pinb := r2\<rparr>)
   \<and> state (PCINT0_vect r1 r2 r3 r4 (m\<lparr>state := poweroff_state\<rparr>)) = boot_state
   \<and> power_enable_asserted (PCINT0_vect r1 r2 r3 r4 (m\<lparr>state := poweroff_state\<rparr>))
   \<and> \<not> shutdown_signal_asserted (PCINT0_vect r1 r2 r3 r4 (m\<lparr>state := poweroff_state\<rparr>))
   \<and> state (PCINT0_vect r1 r2 r3 r4 (m\<lparr>state := boot_state\<rparr>)) = boot_state
   \<and> PORTB (PCINT0_vect r1 r2 r3 r4 (m\<lparr>state := boot_state\<rparr>)) = PORTB m
   \<and> state (PCINT0_vect r1 r2 r3 r4 (m\<lparr>state := shutdown_state\<rparr>)) = shutdown_state
   \<and> PORTB (PCINT0_vect r1 r2 r3 r4 (m\<lparr>state := shutdown_state\<rparr>)) = PORTB m
   \<and> state (PCINT0_vect r1 r2 r3 r4 (m\<lparr>state := unknown_state\<rparr>)) = unknown_state
   \<and> PORTB (PCINT0_vect r1 r2 r3 r4 (m\<lparr>state := unknown_state\<rparr>)) = PORTB m"
  using assms
  by (simp add: PCINT0_vect_cases state_change_simps out_defs bit_macros pin_defs)

text \<open>The button line goes from 0 to 1 on the machine after a reset.\<close>

theorem button_rising_edge_witness:
  "(4 XOR pinb reset_mcu) AND BV BTN \<noteq> 0 \<and> 4 AND BV BTN \<noteq> 0
   \<and> state (PCINT0_vect 4 4 4 4 (reset_mcu\<lparr>state := idle_state\<rparr>)) = shutdown_state
   \<and> state (PCINT0_vect 4 4 4 4 (reset_mcu\<lparr>state := poweroff_state\<rparr>)) = boot_state"
proof -
  have a: "(4 XOR pinb reset_mcu) AND BV BTN \<noteq> 0"
    by (simp add: reset_mcu_def BV_def BTN_def)
  have b: "4 AND BV BTN \<noteq> 0"
    by (simp add: BV_def BTN_def)
  from button_rising_edge [OF a b, of 4 4] a b show ?thesis
    by blast
qed

text \<open>
  Claim C3. Let the host-ready line have a rising edge in an interrupt. In Booting the
  handler stores the snapshot and sets \<open>seconds\<close> to \<open>BOOT_TIMEOUT\<close> = 40; the state stays
  Booting, and the next boot tick (the next pass of \<open>loop\<close>) ends in Idle, whatever
  \<open>timer\<close> and \<open>seconds\<close> were before the interrupt. In every other state the edge changes
  nothing: in Idle and PoweredOff the handler does what it does when the host-ready line
  is read as 0, and in ShuttingDown and Unknown it only stores the snapshot.
\<close>

theorem host_ready_rising_edge:
  assumes "(r1 XOR pinb m) AND BV RPI_IN \<noteq> 0" and "r3 AND BV RPI_IN \<noteq> 0"
  shows
  "PCINT0_vect r1 r2 r3 r4 (m\<lparr>state := boot_state\<rparr>) =
     m\<lparr>state := boot_state, pinb := r2, seconds := BOOT_TIMEOUT\<rparr>
   \<and> state (PCINT0_vect r1 r2 r3 r4 (m\<lparr>state := boot_state\<rparr>)) = boot_state
   \<and> seconds (PCINT0_vect r1 r2 r3 r4 (m\<lparr>state := boot_state\<rparr>)) = 40
   \<and> state (boot_tick (PCINT0_vect r1 r2 r3 r4 (m\<lparr>state := boot_state\<rparr>))) = idle_state
   \<and> state (loop (PCINT0_vect r1 r2 r3 r4 (m\<lparr>state := boot_state\<rparr>))) = idle_state
   \<and> PCINT0_vect r1 r2 r3 r4 (m\<lparr>state := idle_state\<rparr>) =
       PCINT0_vect r1 r2 0 r4 (m\<lparr>state := idle_state\<rparr>)
   \<and> PCINT0_vect r1 r2 r3 r4 (m\<lparr>state := poweroff_state\<rparr>) =
       PCINT0_vect r1 r2 0 r4 (m\<lparr>state := poweroff_state\<rparr>)
   \<and> PCINT0_vect r1 r2 r3 r4 (m\<lparr>state := shutdown_state\<rparr>) =
       m\<lparr>state := shutdown_state, pinb := r2\<rparr>
   \<and> PCINT0_vect r1 r2 r3 r4 (m\<lparr>state := unknown_state\<rparr>) =
       m\<lparr>state := unknown_state, pinb := r2\<rparr>"
proof -
  let ?m = "PCINT0_vect r1 r2 r3 r4 (m\<lparr>state := boot_state\<rparr>)"
  have eq: "?m = m\<lparr>state := boot_state, pinb := r2, seconds := BOOT_TIMEOUT\<rparr>"
    using assms by (simp add: PCINT0_vect_cases)
  have tick: "state (boot_tick ?m) = idle_state"
    by (rule boot_tick_timeout) (simp_all add: eq)
  have "state (loop ?m) = idle_state"
    using tick by (simp add: loop_def eq)
  with eq tick show ?thesis
    by (simp add: PCINT0_vect_cases BOOT_TIMEOUT_def)
qed

text \<open>The host-ready line goes from 0 to 1 on the machine after a reset.\<close>

theorem host_ready_rising_edge_witness:
  "(8 XOR pinb reset_mcu) AND BV RPI_IN \<noteq> 0 \<and> 8 AND BV RPI_IN \<noteq> 0
   \<and> seconds (PCINT0_vect 8 8 8 8 (reset_mcu\<lparr>state := boot_state\<rparr>)) = 40
   \<and> state (loop (PCINT0_vect 8 8 8 8 (reset_mcu\<lparr>state := boot_state\<rparr>))) = idle_state"
proof -
  have a: "(8 XOR pinb reset_mcu) AND BV RPI_IN \<noteq> 0"
    by (simp add: reset_mcu_def BV_def RPI_IN_def)
  have b: "8 AND BV RPI_IN \<noteq> 0"
    by (simp add: BV_def RPI_IN_def)
  from host_ready_rising_edge [OF a b, of 8 8] a b show ?thesis
    by blast
qed

text \<open>
  Claim C10. The handler tests the host-ready line before the button line. When both
  have a rising edge in one interrupt taken in PoweredOff, the host-ready test sees
  PoweredOff and does nothing, and the button test makes the transition to Booting: the
  result is the entry into Booting, with \<open>timer\<close> and \<open>seconds\<close> zero. The boot wait is
  the full one: with no further interrupt the state is Booting for the next 199 passes
  of \<open>loop\<close> and Idle from the 200th on.
\<close>

theorem simultaneous_edges_poweroff:
  assumes "(r1 XOR pinb m) AND BV RPI_IN \<noteq> 0" and "r3 AND BV RPI_IN \<noteq> 0"
    and "(r1 XOR pinb m) AND BV BTN \<noteq> 0" and "r4 AND BV BTN \<noteq> 0"
  shows
  "PCINT0_vect r1 r2 r3 r4 (m\<lparr>state := poweroff_state\<rparr>) =
     state_change boot_state (m\<lparr>state := poweroff_state, pinb := r2\<rparr>)
   \<and> state (PCINT0_vect r1 r2 r3 r4 (m\<lparr>state := poweroff_state\<rparr>)) = boot_state
   \<and> timer (PCINT0_vect r1 r2 r3 r4 (m\<lparr>state := poweroff_state\<rparr>)) = 0
   \<and> seconds (PCINT0_vect r1 r2 r3 r4 (m\<lparr>state := poweroff_state\<rparr>)) = 0
   \<and> state ((loop ^^ n) (PCINT0_vect r1 r2 r3 r4 (m\<lparr>state := poweroff_state\<rparr>))) =
       (if n < 200 then boot_state else idle_state)"
proof -
  let ?m = "state_change boot_state (m\<lparr>state := poweroff_state, pinb := r2\<rparr>)"
  have eq: "PCINT0_vect r1 r2 r3 r4 (m\<lparr>state := poweroff_state\<rparr>) = ?m"
    using assms by (simp add: PCINT0_vect_cases)
  have m: "state ?m = boot_state" "timer ?m = 0" "seconds ?m = 0"
    by (simp_all add: state_change_simps)
  have "state ((loop ^^ n) ?m) = (if n < 200 then boot_state else idle_state)"
  proof (cases "n < 200")
    case True
    then show ?thesis
      using boot_phase_running [OF m, of n] m(1) by simp
  next
    case False
    then have "200 \<le> n" by simp
    from boot_phase_done [OF m this] False show ?thesis by simp
  qed
  with m show ?thesis
    unfolding eq by simp
qed

text \<open>Both lines go from 0 to 1 on the machine after a reset.\<close>

theorem simultaneous_edges_poweroff_witness:
  "(12 XOR pinb reset_mcu) AND BV RPI_IN \<noteq> 0 \<and> 12 AND BV RPI_IN \<noteq> 0
   \<and> (12 XOR pinb reset_mcu) AND BV BTN \<noteq> 0 \<and> 12 AND BV BTN \<noteq> 0
   \<and> state (PCINT0_vect 12 12 12 12 (reset_mcu\<lparr>state := poweroff_state\<rparr>)) = boot_state
   \<and> seconds (PCINT0_vect 12 12 12 12 (reset_mcu\<lparr>state := poweroff_state\<rparr>)) = 0"
proof -
  have a: "(12 XOR pinb reset_mcu) AND BV RPI_IN \<noteq> 0"
    by (simp add: reset_mcu_def BV_def RPI_IN_def)
  have b: "12 AND BV RPI_IN \<noteq> 0"
    by (simp add: BV_def RPI_IN_def)
  have c: "(12 XOR pinb reset_mcu) AND BV BTN \<noteq> 0"
    by (simp add: reset_mcu_def BV_def BTN_def)
  have d: "12 AND BV BTN \<noteq> 0"
    by (simp add: BV_def BTN_def)
  from simultaneous_edges_poweroff [OF a b c d, of 12] a b c d show ?thesis
    by blast
qed

section \<open>Initialisation\<close>

text \<open>
  Claim C7. Whatever the machine was before and whatever levels the input lines have,
  \<open>setup\<close> returns in PoweredOff, with \<open>timer\<close> and \<open>seconds\<close> zero and with the levels
  of the PoweredOff entry action: power-enable deasserted, LED off, shutdown-signal
  deasserted.
\<close>

theorem setup_poweroff:
  "state (setup_mcu pins m) = poweroff_state
   \<and> timer (setup_mcu pins m) = 0
   \<and> seconds (setup_mcu pins m) = 0
   \<and> \<not> power_enable_asserted (setup_mcu pins m)
   \<and> \<not> led_on (setup_mcu pins m)
   \<and> \<not> shutdown_signal_asserted (setup_mcu pins m)"
  by (simp add: setup_mcu_def Let_def state_change_simps out_defs bit_macros pin_defs)

text \<open>
  \<open>setup\<close> enables the interrupts just before its final \<open>state_change\<close>. A handler that
  runs at that point finds the state Unknown and only stores the snapshot.
\<close>

lemma interrupt_before_first_state_change:
  assumes "state m = unknown_state"
  shows "state_change poweroff_state (PCINT0_vect r1 r2 r3 r4 m) =
    (state_change poweroff_state m)\<lparr>pinb := r2\<rparr>"
  using assms by (simp add: PCINT0_vect_cases state_change_simps)

section \<open>Runs of the program\<close>

lemma run_append: "run (xs @ ys) m = run ys (run xs m)"
  by (simp add: run_def)

lemma run_Cons: "run (e # es) m = run es (step e m)"
  by (simp add: run_def)

lemma run_Nil: "run [] m = m"
  by (simp add: run_def)

lemma run_ticks: "run (replicate n Tick) m = (loop ^^ n) m"
proof (induction n arbitrary: m)
  case 0
  show ?case by (simp add: run_def)
next
  case (Suc n)
  then show ?case by (simp add: run_def funpow_swap1)
qed

lemma bork_tick_id: "bork_tick m = m"
  by (simp add: bork_tick_def DELAY_def Let_def TOGGLE_TOGGLE)

subsection \<open>The levels of the output lines along a run\<close>

lemma state_levels_setup: "state_levels (setup_mcu pins m)"
  by (simp add: setup_mcu_def Let_def state_change_simps state_levels_def out_defs
      bit_macros pin_defs)

lemma state_levels_loop: "state_levels m \<Longrightarrow> state_levels (loop m)"
  by (cases "state m")
    (auto simp: state_levels_def loop_def boot_tick_def shutdown_tick_def sleep_mode_def
      Let_def state_change_simps out_defs bit_macros pin_defs)

lemma state_levels_PCINT0_vect:
  "state_levels m \<Longrightarrow> state_levels (PCINT0_vect r1 r2 r3 r4 m)"
  by (cases "state m")
    (auto simp: state_levels_def PCINT0_vect_cases state_change_simps out_defs bit_macros
      pin_defs)

lemma state_levels_step: "state_levels m \<Longrightarrow> state_levels (step e m)"
  by (cases e) (simp_all add: state_levels_loop state_levels_PCINT0_vect)

lemma state_levels_run: "state_levels m \<Longrightarrow> state_levels (run evs m)"
  by (induction evs arbitrary: m) (simp_all add: run_Nil run_Cons state_levels_step)

lemma state_levels_known: "state_levels m \<Longrightarrow> state m \<noteq> unknown_state"
  by (auto simp: state_levels_def)

lemma state_levels_iff:
  "state_levels m \<Longrightarrow>
     power_enable_asserted m = (state m \<noteq> poweroff_state)
     \<and> shutdown_signal_asserted m = (state m = shutdown_state)"
  by (cases "state m") (simp_all add: state_levels_def)

text \<open>
  Claim C6 as it is written, at the machine that enters Booting after a reset: one pass
  of \<open>loop\<close> leaves the state Booting and changes the level of the LED. The boot tick
  flips the LED on every pass, so the LED is not a function of the state and is written
  between transitions.
\<close>

theorem led_toggles_counterexample:
  "state (loop (state_change boot_state reset_mcu)) = state (state_change boot_state reset_mcu)
   \<and> led_on (loop (state_change boot_state reset_mcu))
       \<noteq> led_on (state_change boot_state reset_mcu)"
  by (simp add: loop_def boot_tick_def Let_def state_change_simps delay_timed reset_mcu_def
      BOOT_TICK_def SECOND_def BOOT_TIMEOUT_def out_defs bit_macros pin_defs)

subsection \<open>The levels with interrupts inside a pass\<close>

text \<open>With no interrupt to come, the functions with interrupt points are the plain ones.\<close>

lemma stmt_Nil [simp]: "stmt f ([], m) = ([], f m)"
  by (simp add: stmt_def)

lemma delay_p_Nil: "delay_p msecs ([], m) = ([], delay msecs m)"
  by (simp add: delay_p_def delay_def Let_def)

lemma state_change_p_Nil: "state_change_p s ([], m) = ([], state_change s m)"
  by (cases s) (simp_all add: state_change_p_def state_change_def Let_def)

lemma loop_p_Nil: "loop_p ([], m) = ([], loop m)"
  by (cases "state m")
    (simp_all add: loop_p_def loop_def boot_tick_p_def boot_tick_def shutdown_tick_p_def
      shutdown_tick_def bork_tick_p_def bork_tick_def delay_p_Nil state_change_p_Nil Let_def)

lemma setup_p_Nil: "setup_p pins ([], m) = ([], setup_mcu pins m)"
  by (simp add: setup_p_def setup_mcu_def Let_def state_change_p_Nil)

text \<open>
  A property of the machine that every execution of the handler keeps is kept by the
  interrupts taken at a point, and is established by a statement that establishes it.
\<close>

lemma interrupts_inv:
  assumes "\<And>r1 r2 r3 r4 m. P m \<Longrightarrow> P (PCINT0_vect r1 r2 r3 r4 m)" and "P m"
  shows "P (interrupts b m)"
  using assms(2)
proof (induction b arbitrary: m)
  case Nil
  then show ?case by (simp add: interrupts_def)
next
  case (Cons x b)
  obtain r1 r2 r3 r4 where x: "x = (r1, r2, r3, r4)" by (cases x)
  have "interrupts (x # b) m = interrupts b (PCINT0_vect r1 r2 r3 r4 m)"
    by (simp add: interrupts_def x)
  with Cons assms(1) show ?case by simp
qed

lemma preempt_inv:
  assumes "\<And>r1 r2 r3 r4 m. P m \<Longrightarrow> P (PCINT0_vect r1 r2 r3 r4 m)" and "P (snd c)"
  shows "P (snd (preempt c))"
proof (cases c)
  case (Pair bs m)
  with assms show ?thesis
    by (cases bs) (simp_all add: interrupts_inv [where P = P])
qed

lemma stmt_inv:
  assumes "\<And>r1 r2 r3 r4 m. Q m \<Longrightarrow> Q (PCINT0_vect r1 r2 r3 r4 m)"
    and "\<And>m. P m \<Longrightarrow> Q (f m)" and "P (snd c)"
  shows "Q (snd (stmt f c))"
  unfolding stmt_def by (rule preempt_inv [where P = Q]) (simp_all add: assms)

lemmas handler_simps = PCINT0_vect_cases state_change_simps out_defs bit_macros pin_defs

lemma pass_levels_handler: "pass_levels m \<Longrightarrow> pass_levels (PCINT0_vect r1 r2 r3 r4 m)"
  by (cases "state m") (auto simp: pass_levels_def handler_simps)

lemma state_change_p_poweroff:
  "pass_levels (snd (state_change_p poweroff_state c))
   \<and> (state (snd (state_change_p poweroff_state c)) = poweroff_state
      \<or> state (snd (state_change_p poweroff_state c)) = boot_state)"
proof -
  let ?Q0 = "\<lambda>m. state m = poweroff_state \<or> state m = boot_state \<and> \<not> bit (PORTB m) RPI_OUT"
  let ?Q1 = "\<lambda>m. state m = poweroff_state \<and> bit (PORTB m) RPI_PWR
     \<or> state m = boot_state \<and> \<not> bit (PORTB m) RPI_OUT"
  let ?Q2 = "\<lambda>m. state m = poweroff_state \<and> bit (PORTB m) RPI_PWR \<and> \<not> bit (PORTB m) LED
     \<or> state m = boot_state \<and> \<not> bit (PORTB m) RPI_OUT"
  let ?Q3 = "\<lambda>m. state m = poweroff_state \<and> bit (PORTB m) RPI_PWR \<and> \<not> bit (PORTB m) LED
       \<and> \<not> bit (PORTB m) RPI_OUT
     \<or> state m = boot_state \<and> \<not> bit (PORTB m) RPI_OUT"
  let ?B = "\<lambda>m. state m = boot_state \<and> \<not> bit (PORTB m) RPI_OUT"
  define c1 where "c1 = stmt (\<lambda>m. m\<lparr>state := poweroff_state\<rparr>) c"
  have c1: "?Q0 (snd c1)"
    unfolding c1_def
    by (rule stmt_inv [where P = "\<lambda>m. True" and Q = ?Q0])
      (auto simp: handler_simps split: state_t.splits)
  have "?Q3 (snd (state_change_p poweroff_state c))"
  proof (cases "state (snd c1) = poweroff_state")
    case True
    have q0: "?Q0 (snd (preempt c1))"
      by (rule preempt_inv [where P = ?Q0, OF _ c1]) (auto simp: handler_simps split: state_t.splits)
    have q1: "?Q1 (snd (stmt (\<lambda>m. m\<lparr>PORTB := HIGH (PORTB m) RPI_PWR\<rparr>) (preempt c1)))"
      by (rule stmt_inv [where P = ?Q0 and Q = ?Q1, OF _ _ q0])
        (auto simp: handler_simps split: state_t.splits)
    have q2: "?Q2 (snd (stmt (\<lambda>m. m\<lparr>PORTB := LOW (PORTB m) LED\<rparr>)
        (stmt (\<lambda>m. m\<lparr>PORTB := HIGH (PORTB m) RPI_PWR\<rparr>) (preempt c1))))"
      by (rule stmt_inv [where P = ?Q1 and Q = ?Q2, OF _ _ q1])
        (auto simp: handler_simps split: state_t.splits)
    have q3: "?Q3 (snd (stmt (\<lambda>m. m\<lparr>PORTB := LOW (PORTB m) RPI_OUT\<rparr>)
        (stmt (\<lambda>m. m\<lparr>PORTB := LOW (PORTB m) LED\<rparr>)
        (stmt (\<lambda>m. m\<lparr>PORTB := HIGH (PORTB m) RPI_PWR\<rparr>) (preempt c1)))))"
      by (rule stmt_inv [where P = ?Q2 and Q = ?Q3, OF _ _ q2])
        (auto simp: handler_simps split: state_t.splits)
    from q3 True show ?thesis
      by (simp add: state_change_p_def Let_def c1_def)
  next
    case False
    with c1 have b: "?B (snd c1)" by auto
    have "?B (snd (stmt (\<lambda>m. m\<lparr>seconds := 0\<rparr>)
        (stmt (\<lambda>m. m\<lparr>timer := 0\<rparr>)
        (stmt (\<lambda>m. m\<lparr>PORTB := LOW (PORTB m) RPI_OUT\<rparr>)
        (stmt (\<lambda>m. m\<lparr>PORTB := LOW (PORTB m) RPI_PWR\<rparr>)
        (stmt (\<lambda>m. m\<lparr>PORTB := LOW (PORTB m) LED\<rparr>) (preempt c1)))))))"
      by (intro stmt_inv [where P = ?B and Q = ?B] preempt_inv [where P = ?B] b)
        (auto simp: handler_simps)
    with b show ?thesis
      by (simp add: state_change_p_def Let_def c1_def)
  qed
  then show ?thesis
    by (auto simp: pass_levels_def out_defs)
qed

lemma state_change_p_idle:
  "(state (snd (state_change_p idle_state c)) = idle_state
      \<or> state (snd (state_change_p idle_state c)) = shutdown_state)
   \<and> (bit (PORTB (snd c)) RPI_OUT \<or> pass_levels (snd (state_change_p idle_state c)))"
proof -
  define out where "out = bit (PORTB (snd c)) RPI_OUT"
  let ?A0 = "\<lambda>m. state m = idle_state \<and> bit (PORTB m) RPI_OUT = out
     \<or> state m = shutdown_state \<and> bit (PORTB m) RPI_OUT"
  let ?A1 = "\<lambda>m. state m = idle_state \<and> bit (PORTB m) RPI_OUT = out \<and> bit (PORTB m) LED
     \<or> state m = shutdown_state \<and> bit (PORTB m) RPI_OUT"
  let ?S = "\<lambda>m. state m = shutdown_state \<and> bit (PORTB m) RPI_OUT"
  define c1 where "c1 = stmt (\<lambda>m. m\<lparr>state := idle_state\<rparr>) c"
  have c1: "?A0 (snd c1)"
    unfolding c1_def
    by (rule stmt_inv [where P = "\<lambda>m. bit (PORTB m) RPI_OUT = out" and Q = ?A0])
      (auto simp: handler_simps out_def split: state_t.splits)
  have "?A1 (snd (state_change_p idle_state c))"
  proof (cases "state (snd c1) = idle_state")
    case True
    have a0: "?A0 (snd (preempt c1))"
      by (rule preempt_inv [where P = ?A0, OF _ c1]) (auto simp: handler_simps split: state_t.splits)
    have "?A1 (snd (stmt (\<lambda>m. m\<lparr>PORTB := HIGH (PORTB m) LED\<rparr>) (preempt c1)))"
      by (rule stmt_inv [where P = ?A0 and Q = ?A1, OF _ _ a0])
        (auto simp: handler_simps split: state_t.splits)
    with True show ?thesis
      by (simp add: state_change_p_def Let_def c1_def)
  next
    case False
    with c1 have s: "?S (snd c1)" by auto
    have "?S (snd (stmt (\<lambda>m. m\<lparr>seconds := 0\<rparr>)
        (stmt (\<lambda>m. m\<lparr>timer := 0\<rparr>)
        (stmt (\<lambda>m. m\<lparr>PORTB := LOW (PORTB m) LED\<rparr>)
        (stmt (\<lambda>m. m\<lparr>PORTB := HIGH (PORTB m) RPI_OUT\<rparr>) (preempt c1))))))"
      by (intro stmt_inv [where P = ?S and Q = ?S] preempt_inv [where P = ?S] s)
        (auto simp: handler_simps)
    with s show ?thesis
      by (simp add: state_change_p_def Let_def c1_def)
  qed
  then show ?thesis
    by (auto simp: pass_levels_def out_defs out_def)
qed

lemma delay_p_inv:
  assumes stab: "\<And>r1 r2 r3 r4 m. P m \<Longrightarrow> P (PCINT0_vect r1 r2 r3 r4 m)"
    and tm: "\<And>m t. P m \<Longrightarrow> P (m\<lparr>timer := t\<rparr>)"
    and sc: "\<And>m s. P m \<Longrightarrow> P (m\<lparr>seconds := s\<rparr>)"
    and c: "P (snd c)"
  shows "P (snd (delay_p msecs c))"
proof -
  note rules = stmt_inv [where P = P and Q = P] preempt_inv [where P = P]
  show ?thesis
    unfolding delay_p_def Let_def
    by (simp; intro conjI impI rules c stab) (simp_all add: DELAY_def tm sc)
qed

lemma boot_tick_p_post:
  assumes "state (snd c) = boot_state"
  shows "state (snd (boot_tick_p c)) = boot_state
      \<and> PORTB (snd (boot_tick_p c)) = TOGGLE (PORTB (snd c)) LED
    \<or> (state (snd (boot_tick_p c)) = idle_state \<or> state (snd (boot_tick_p c)) = shutdown_state)
      \<and> (bit (PORTB (snd c)) RPI_OUT \<or> pass_levels (snd (boot_tick_p c)))"
proof -
  let ?B = "\<lambda>m. state m = boot_state \<and> PORTB m = TOGGLE (PORTB (snd c)) LED"
  define c1 where "c1 = stmt (\<lambda>m. m\<lparr>PORTB := TOGGLE (PORTB m) LED\<rparr>) c"
  define c2 where "c2 = delay_p BOOT_TICK c1"
  define c3 where "c3 = preempt c2"
  have stab: "\<And>r1 r2 r3 r4 m. ?B m \<Longrightarrow> ?B (PCINT0_vect r1 r2 r3 r4 m)"
    by (auto simp: handler_simps)
  have "?B (snd c1)"
    unfolding c1_def
    by (rule stmt_inv [where P = "\<lambda>m. state m = boot_state \<and> PORTB m = PORTB (snd c)" and Q = ?B])
      (use assms in \<open>auto simp: handler_simps\<close>)
  then have "?B (snd c2)"
    unfolding c2_def by (intro delay_p_inv [where P = ?B] stab) simp_all
  then have c3: "?B (snd c3)"
    unfolding c3_def by (intro preempt_inv [where P = ?B] stab)
  show ?thesis
  proof (cases "BOOT_TIMEOUT \<le> seconds (snd c2)")
    case True
    then have eq: "boot_tick_p c = state_change_p idle_state c3"
      by (simp add: boot_tick_p_def Let_def c1_def c2_def c3_def)
    have "bit (PORTB (snd c3)) RPI_OUT = bit (PORTB (snd c)) RPI_OUT"
      using c3 by (simp add: bit_macros pin_defs)
    with state_change_p_idle [of c3] show ?thesis
      unfolding eq by auto
  next
    case False
    then have "boot_tick_p c = c3"
      by (simp add: boot_tick_p_def Let_def c1_def c2_def c3_def)
    with c3 show ?thesis by simp
  qed
qed

lemma shutdown_tick_p_post:
  assumes "state (snd c) = shutdown_state"
  shows "state (snd (shutdown_tick_p c)) = shutdown_state
      \<and> PORTB (snd (shutdown_tick_p c)) = TOGGLE (PORTB (snd c)) LED
    \<or> (state (snd (shutdown_tick_p c)) = poweroff_state
        \<or> state (snd (shutdown_tick_p c)) = boot_state)
      \<and> pass_levels (snd (shutdown_tick_p c))"
proof -
  let ?S = "\<lambda>m. state m = shutdown_state \<and> PORTB m = TOGGLE (PORTB (snd c)) LED"
  define c1 where "c1 = stmt (\<lambda>m. m\<lparr>PORTB := TOGGLE (PORTB m) LED\<rparr>) c"
  define c2 where "c2 = delay_p SHUTDOWN_TICK c1"
  define c3 where "c3 = preempt c2"
  have stab: "\<And>r1 r2 r3 r4 m. ?S m \<Longrightarrow> ?S (PCINT0_vect r1 r2 r3 r4 m)"
    by (auto simp: handler_simps)
  have "?S (snd c1)"
    unfolding c1_def
    by (rule stmt_inv
        [where P = "\<lambda>m. state m = shutdown_state \<and> PORTB m = PORTB (snd c)" and Q = ?S])
      (use assms in \<open>auto simp: handler_simps\<close>)
  then have "?S (snd c2)"
    unfolding c2_def by (intro delay_p_inv [where P = ?S] stab) simp_all
  then have c3: "?S (snd c3)"
    unfolding c3_def by (intro preempt_inv [where P = ?S] stab)
  show ?thesis
  proof (cases "SHUTDOWN_TIMEOUT \<le> seconds (snd c2)")
    case True
    then have eq: "shutdown_tick_p c = state_change_p poweroff_state c3"
      by (simp add: shutdown_tick_p_def Let_def c1_def c2_def c3_def)
    from state_change_p_poweroff [of c3] show ?thesis
      unfolding eq by auto
  next
    case False
    then have "shutdown_tick_p c = c3"
      by (simp add: shutdown_tick_p_def Let_def c1_def c2_def c3_def)
    with c3 show ?thesis by simp
  qed
qed

lemma bork_tick_p_post:
  assumes "state (snd c) = unknown_state"
  shows "state (snd (bork_tick_p c)) = unknown_state
    \<and> PORTB (snd (bork_tick_p c)) = PORTB (snd c)"
proof -
  let ?U = "\<lambda>m. state m = unknown_state \<and> PORTB m = PORTB (snd c)"
  let ?T = "\<lambda>m. state m = unknown_state \<and> PORTB m = TOGGLE (PORTB (snd c)) LED"
  have u: "\<And>r1 r2 r3 r4 m. ?U m \<Longrightarrow> ?U (PCINT0_vect r1 r2 r3 r4 m)"
    and t: "\<And>r1 r2 r3 r4 m. ?T m \<Longrightarrow> ?T (PCINT0_vect r1 r2 r3 r4 m)"
    by (auto simp: handler_simps)
  define c1 where "c1 = stmt (\<lambda>m. m\<lparr>PORTB := TOGGLE (PORTB m) LED\<rparr>) c"
  define c2 where "c2 = stmt (DELAY BORK_TICK) c1"
  define c3 where "c3 = stmt (\<lambda>m. m\<lparr>PORTB := TOGGLE (PORTB m) LED\<rparr>) c2"
  have c0: "?U (snd c)" using assms by simp
  have c1: "?T (snd c1)"
    unfolding c1_def by (rule stmt_inv [where P = ?U and Q = ?T, OF t _ c0]) auto
  have c2: "?T (snd c2)"
    unfolding c2_def by (rule stmt_inv [where P = ?T and Q = ?T, OF t _ c1]) (auto simp: DELAY_def)
  have c3: "?U (snd c3)"
    unfolding c3_def
    by (rule stmt_inv [where P = ?T and Q = ?U, OF u _ c2]) (auto simp: TOGGLE_TOGGLE)
  have "?U (snd (stmt (DELAY (BORK_TICK * 2)) c3))"
    by (rule stmt_inv [where P = ?U and Q = ?U, OF u _ c3]) (auto simp: DELAY_def)
  then show ?thesis
    by (simp add: bork_tick_p_def Let_def c1_def c2_def c3_def)
qed

lemma loop_p_post:
  "(case state (snd c) of
      boot_state \<Rightarrow>
        state (snd (loop_p c)) = boot_state
          \<and> PORTB (snd (loop_p c)) = TOGGLE (PORTB (snd c)) LED
        \<or> (state (snd (loop_p c)) = idle_state \<or> state (snd (loop_p c)) = shutdown_state)
          \<and> (bit (PORTB (snd c)) RPI_OUT \<or> pass_levels (snd (loop_p c)))
    | shutdown_state \<Rightarrow>
        state (snd (loop_p c)) = shutdown_state
          \<and> PORTB (snd (loop_p c)) = TOGGLE (PORTB (snd c)) LED
        \<or> (state (snd (loop_p c)) = poweroff_state \<or> state (snd (loop_p c)) = boot_state)
          \<and> pass_levels (snd (loop_p c))
    | idle_state \<Rightarrow>
        state (snd (loop_p c)) = idle_state \<and> PORTB (snd (loop_p c)) = PORTB (snd c)
        \<or> state (snd (loop_p c)) = shutdown_state \<and> pass_levels (snd (loop_p c))
    | poweroff_state \<Rightarrow>
        state (snd (loop_p c)) = poweroff_state \<and> PORTB (snd (loop_p c)) = PORTB (snd c)
        \<or> state (snd (loop_p c)) = boot_state \<and> pass_levels (snd (loop_p c))
    | unknown_state \<Rightarrow>
        state (snd (loop_p c)) = unknown_state \<and> PORTB (snd (loop_p c)) = PORTB (snd c))"
proof (cases "state (snd c)")
  case unknown_state
  let ?U = "\<lambda>m. state m = unknown_state \<and> PORTB m = PORTB (snd c)"
  have "?U (snd (preempt c))"
    by (rule preempt_inv [where P = ?U]) (use unknown_state in \<open>auto simp: handler_simps\<close>)
  with bork_tick_p_post [of "preempt c"] unknown_state show ?thesis
    by (simp add: loop_p_def Let_def)
next
  case boot_state
  let ?B = "\<lambda>m. state m = boot_state \<and> PORTB m = PORTB (snd c)"
  have "?B (snd (preempt c))"
    by (rule preempt_inv [where P = ?B]) (use boot_state in \<open>auto simp: handler_simps\<close>)
  with boot_tick_p_post [of "preempt c"] boot_state show ?thesis
    by (simp add: loop_p_def Let_def)
next
  case idle_state
  let ?I = "\<lambda>m. state m = idle_state \<and> PORTB m = PORTB (snd c)
     \<or> state m = shutdown_state \<and> pass_levels m"
  have stab: "\<And>r1 r2 r3 r4 m. ?I m \<Longrightarrow> ?I (PCINT0_vect r1 r2 r3 r4 m)"
    by (auto simp: pass_levels_def handler_simps)
  have "?I (snd (stmt sleep_mode (preempt c)))"
    by (intro stmt_inv [where P = ?I and Q = ?I] preempt_inv [where P = ?I] stab)
      (use idle_state in \<open>simp_all add: sleep_mode_def\<close>)
  with idle_state show ?thesis
    by (simp add: loop_p_def Let_def)
next
  case shutdown_state
  let ?S = "\<lambda>m. state m = shutdown_state \<and> PORTB m = PORTB (snd c)"
  have "?S (snd (preempt c))"
    by (rule preempt_inv [where P = ?S]) (use shutdown_state in \<open>auto simp: handler_simps\<close>)
  with shutdown_tick_p_post [of "preempt c"] shutdown_state show ?thesis
    by (simp add: loop_p_def Let_def)
next
  case poweroff_state
  let ?O = "\<lambda>m. state m = poweroff_state \<and> PORTB m = PORTB (snd c)
     \<or> state m = boot_state \<and> pass_levels m"
  have stab: "\<And>r1 r2 r3 r4 m. ?O m \<Longrightarrow> ?O (PCINT0_vect r1 r2 r3 r4 m)"
    by (auto simp: pass_levels_def handler_simps)
  have "?O (snd (stmt sleep_mode (preempt c)))"
    by (intro stmt_inv [where P = ?O and Q = ?O] preempt_inv [where P = ?O] stab)
      (use poweroff_state in \<open>simp_all add: sleep_mode_def\<close>)
  with poweroff_state show ?thesis
    by (simp add: loop_p_def Let_def)
qed

lemma pass_levels_loop_p:
  assumes "pass_levels (snd c)"
  shows "pass_levels (snd (loop_p c))"
  using loop_p_post [of c] assms
  by (cases "state (snd c)")
    (auto simp: pass_levels_def out_defs bit_macros pin_defs split: state_t.splits)

lemma loop_p_same_state:
  assumes "state (snd (loop_p c)) = state (snd c)"
  shows "PORTB (snd (loop_p c)) =
    (if state (snd c) = boot_state \<or> state (snd c) = shutdown_state
     then TOGGLE (PORTB (snd c)) LED else PORTB (snd c))"
  using loop_p_post [of c] assms
  by (cases "state (snd c)") auto

lemma pass_levels_setup_p: "pass_levels (snd (setup_p pins c))"
  using state_change_p_poweroff by (simp add: setup_p_def Let_def)

lemma pass_levels_passes: "pass_levels (snd ((loop_p ^^ n) (setup_p pins c)))"
  by (induction n) (simp_all add: pass_levels_setup_p pass_levels_loop_p)

text \<open>
  Why \<open>pass_levels\<close> says nothing on power-enable outside PoweredOff. The last shutdown
  tick enters PoweredOff; the button is pressed after \<open>state_change\<close> has stored the new
  state and chosen the PoweredOff case, and before that case has written the port. The
  handler sees PoweredOff and enters Booting, and the main line then finishes the entry
  into PoweredOff: the state is Booting and power-enable is deasserted.
\<close>

lemma interrupt_inside_poweroff_entry:
  "snd (loop_p ([[], [], [], [], [], [], [], [], [], [], [(4, 4, 4, 4)]],
      \<lparr>state = shutdown_state, timer = 500, seconds = 39, pinb = 0, PORTB = 16, DDRB = 19\<rparr>))
   = \<lparr>state = boot_state, timer = 0, seconds = 0, pinb = 4, PORTB = 1, DDRB = 19\<rparr>"
  by (simp add: loop_p_def shutdown_tick_p_def delay_p_def state_change_p_def stmt_def Let_def
      interrupts_def PCINT0_vect_cases state_change_simps DELAY_def SHUTDOWN_TICK_def SECOND_def
      SHUTDOWN_TIMEOUT_def HIGH_def LOW_def TOGGLE_def BV_def pin_defs)

text \<open>
  Claim C6, as the source has it. After \<open>setup\<close> and any number of passes of \<open>loop\<close>,
  whatever interrupts arrive and between whichever statements they land (inside \<open>setup\<close>'s
  final \<open>state_change\<close> and inside the passes too), the machine between two passes has the levels
  of its state, \<open>pass_levels\<close>: the shutdown-signal is asserted exactly in ShuttingDown, the
  LED is on in Idle and off in PoweredOff, and power-enable is deasserted in PoweredOff.
  In the runs in which every interrupt is taken between two passes, all the levels of
  \<open>state_levels\<close> hold: power-enable is then asserted exactly when the state is not
  PoweredOff. A pass of \<open>loop\<close>, with any interrupts inside it, that ends in the state
  in which it started leaves the power-enable and the shutdown-signal levels as they
  were; it leaves the LED flipped when that state is Booting or ShuttingDown, and at its
  level when it is Idle, PoweredOff or Unknown.
\<close>

theorem outputs_follow_state:
  assumes "state (snd (loop_p (bs, m))) = state m"
  shows "pass_levels (snd ((loop_p ^^ n) (setup_p pins (sched, m0))))
    \<and> shutdown_signal_asserted (snd ((loop_p ^^ n) (setup_p pins (sched, m0)))) =
        (state (snd ((loop_p ^^ n) (setup_p pins (sched, m0)))) = shutdown_state)
    \<and> state_levels (run evs (setup_mcu pins m0))
    \<and> power_enable_asserted (run evs (setup_mcu pins m0)) =
        (state (run evs (setup_mcu pins m0)) \<noteq> poweroff_state)
    \<and> power_enable_asserted (snd (loop_p (bs, m))) = power_enable_asserted m
    \<and> shutdown_signal_asserted (snd (loop_p (bs, m))) = shutdown_signal_asserted m
    \<and> led_on (snd (loop_p (bs, m))) =
        (if state m = boot_state \<or> state m = shutdown_state then \<not> led_on m else led_on m)"
proof -
  let ?M = "snd ((loop_p ^^ n) (setup_p pins (sched, m0)))"
  have levels: "pass_levels ?M"
    by (rule pass_levels_passes)
  then have "shutdown_signal_asserted ?M = (state ?M = shutdown_state)"
    by (cases "state ?M") (simp_all add: pass_levels_def)
  moreover have run: "state_levels (run evs (setup_mcu pins m0))"
    by (intro state_levels_run state_levels_setup)
  moreover have "PORTB (snd (loop_p (bs, m))) =
      (if state m = boot_state \<or> state m = shutdown_state then TOGGLE (PORTB m) LED else PORTB m)"
    using loop_p_same_state [of "(bs, m)"] assms by simp
  ultimately show ?thesis
    using levels state_levels_iff [OF run] by (simp add: out_defs bit_macros pin_defs)
qed

text \<open>
  The first boot tick after a reset, with the button pressed during the tick: the state
  stays Booting and the LED is lit.
\<close>

theorem outputs_follow_state_witness:
  "state (snd (loop_p ([[(4, 4, 4, 4)]], state_change boot_state reset_mcu))) =
     state (state_change boot_state reset_mcu)
   \<and> pass_levels (snd ((loop_p ^^ 1) (setup_p 0 ([[(4, 4, 4, 4)]], reset_mcu))))
   \<and> led_on (snd (loop_p ([[(4, 4, 4, 4)]], state_change boot_state reset_mcu)))
   \<and> power_enable_asserted (snd (loop_p ([[(4, 4, 4, 4)]], state_change boot_state reset_mcu)))"
proof -
  have a: "state (snd (loop_p ([[(4, 4, 4, 4)]], state_change boot_state reset_mcu))) =
      state (state_change boot_state reset_mcu)"
    by (simp add: loop_p_def boot_tick_p_def delay_p_def stmt_def Let_def interrupts_def
        PCINT0_vect_cases state_change_simps reset_mcu_def DELAY_def BOOT_TICK_def SECOND_def
        BOOT_TIMEOUT_def BV_def pin_defs)
  have b: "\<not> led_on (state_change boot_state reset_mcu)"
    "power_enable_asserted (state_change boot_state reset_mcu)"
    by (simp_all add: state_change_simps out_defs bit_macros pin_defs)
  from outputs_follow_state [OF a, of 1 0 "[[(4, 4, 4, 4)]]" reset_mcu] a b show ?thesis
    by (simp add: state_change_simps)
qed


text \<open>
  Claim C8. After \<open>setup\<close>, no run of passes of \<open>loop\<close> and executions of the interrupt
  handler, in any order and with any values read from the input lines, reaches the
  Unknown state. Neither \<open>loop\<close> nor the handler has a transition into Unknown: each
  returns in Unknown only when it was started there.
\<close>

theorem never_unknown_after_setup:
  "state (run evs (setup_mcu pins m0)) \<noteq> unknown_state
   \<and> (state (loop m) = unknown_state) = (state m = unknown_state)
   \<and> (state (PCINT0_vect r1 r2 r3 r4 m) = unknown_state) = (state m = unknown_state)"
proof -
  have "state (run evs (setup_mcu pins m0)) \<noteq> unknown_state"
    by (intro state_levels_known state_levels_run state_levels_setup)
  moreover have "(state (loop m) = unknown_state) = (state m = unknown_state)"
    by (cases "state m")
      (simp_all add: loop_def boot_tick_def shutdown_tick_def bork_tick_id sleep_mode_def
        Let_def state_state_change)
  moreover have "(state (PCINT0_vect r1 r2 r3 r4 m) = unknown_state) = (state m = unknown_state)"
    by (cases "state m") (simp_all add: PCINT0_vect_cases state_state_change)
  ultimately show ?thesis by simp
qed

section \<open>The full power cycle\<close>

lemma rising_after_release:
  assumes "r AND BV b = 0" and "p AND BV b \<noteq> 0"
  shows "(p XOR r) AND BV b \<noteq> 0"
  using assms by (simp add: bit.conj_xor_distrib2)

text \<open>
  The machine after each leg of the cycle: after the first press, after the boot, after
  the second press, and at the end.
\<close>

lemma power_cycle_legs:
  assumes "state m = poweroff_state"
    and "(p1 XOR pinb m) AND BV BTN \<noteq> 0" and "p1 AND BV BTN \<noteq> 0"
    and "r AND BV BTN = 0"
    and "p2 AND BV BTN \<noteq> 0"
  shows "run (take 1 (power_cycle p1 r p2)) m = state_change boot_state (m\<lparr>pinb := p1\<rparr>)"
    and "run (take 201 (power_cycle p1 r p2)) m =
      m\<lparr>pinb := p1, state := idle_state, timer := 0, seconds := 40,
        PORTB := HIGH (LOW (LOW (LOW (PORTB m) LED) RPI_PWR) RPI_OUT) LED\<rparr>"
    and "run (take 203 (power_cycle p1 r p2)) m =
      m\<lparr>pinb := p2, state := shutdown_state, timer := 0, seconds := 0,
        PORTB := LOW (HIGH (HIGH (LOW (LOW (LOW (PORTB m) LED) RPI_PWR) RPI_OUT) LED)
                   RPI_OUT) LED\<rparr>"
    and "run (power_cycle p1 r p2) m =
      m\<lparr>pinb := p2, timer := 0, seconds := 40,
        PORTB := LOW (LOW (HIGH (LOW (HIGH (HIGH (LOW (LOW (LOW (PORTB m) LED) RPI_PWR)
                   RPI_OUT) LED) RPI_OUT) LED) RPI_PWR) LED) RPI_OUT\<rparr>"
proof -
  let ?m1 = "state_change boot_state (m\<lparr>pinb := p1\<rparr>)"
  let ?m2 = "?m1\<lparr>state := idle_state, PORTB := HIGH (PORTB ?m1) LED, timer := 0,
      seconds := 40\<rparr>"
  let ?m3 = "?m2\<lparr>pinb := r\<rparr>"
  let ?m4 = "state_change shutdown_state (?m3\<lparr>pinb := p2\<rparr>)"
  let ?m5 = "?m4\<lparr>state := poweroff_state,
      PORTB := LOW (LOW (HIGH (PORTB ?m4) RPI_PWR) LED) RPI_OUT, timer := 0, seconds := 40\<rparr>"
  have 1: "PCINT0_vect p1 p1 p1 p1 m = ?m1"
    using assms(1-3) by (simp add: PCINT0_vect_cases)
  have 2: "(loop ^^ 200) ?m1 = ?m2"
    by (rule boot_phase_done) (simp_all add: state_change_simps)
  have 3: "PCINT0_vect r r r r ?m2 = ?m3"
    using assms(4) by (simp add: PCINT0_vect_cases)
  have 4: "PCINT0_vect p2 p2 p2 p2 ?m3 = ?m4"
    using rising_after_release [OF assms(4,5)] assms(5) by (simp add: PCINT0_vect_cases)
  have 5: "(loop ^^ 80) ?m4 = ?m5"
    by (rule shutdown_phase_done) (simp_all add: state_change_simps)
  have t1: "take 1 (power_cycle p1 r p2) = [Interrupt p1 p1 p1 p1]"
    by (simp add: power_cycle_def)
  have t2: "take 201 (power_cycle p1 r p2) = [Interrupt p1 p1 p1 p1] @ replicate 200 Tick"
    by (simp add: power_cycle_def)
  have t3: "take 203 (power_cycle p1 r p2) =
      [Interrupt p1 p1 p1 p1] @ replicate 200 Tick @ [Interrupt r r r r, Interrupt p2 p2 p2 p2]"
    by (simp add: power_cycle_def)
  show "run (take 1 (power_cycle p1 r p2)) m = ?m1"
    unfolding t1 run_append run_Cons run_Nil step.simps run_ticks by (simp only: 1)
  have "run (take 201 (power_cycle p1 r p2)) m = ?m2"
    unfolding t2 run_append run_Cons run_Nil step.simps run_ticks by (simp only: 1 2)
  then show "run (take 201 (power_cycle p1 r p2)) m =
      m\<lparr>pinb := p1, state := idle_state, timer := 0, seconds := 40,
        PORTB := HIGH (LOW (LOW (LOW (PORTB m) LED) RPI_PWR) RPI_OUT) LED\<rparr>"
    by (simp add: state_change_simps)
  have "run (take 203 (power_cycle p1 r p2)) m = ?m4"
    unfolding t3 run_append run_Cons run_Nil step.simps run_ticks by (simp only: 1 2 3 4)
  then show "run (take 203 (power_cycle p1 r p2)) m =
      m\<lparr>pinb := p2, state := shutdown_state, timer := 0, seconds := 0,
        PORTB := LOW (HIGH (HIGH (LOW (LOW (LOW (PORTB m) LED) RPI_PWR) RPI_OUT) LED)
                   RPI_OUT) LED\<rparr>"
    by (simp add: state_change_simps)
  have "run (power_cycle p1 r p2) m = ?m5"
    unfolding power_cycle_def run_append run_Cons run_Nil step.simps run_ticks
    by (simp only: 1 2 3 4 5)
  then show "run (power_cycle p1 r p2) m =
      m\<lparr>pinb := p2, timer := 0, seconds := 40,
        PORTB := LOW (LOW (HIGH (LOW (HIGH (HIGH (LOW (LOW (LOW (PORTB m) LED) RPI_PWR)
                   RPI_OUT) LED) RPI_OUT) LED) RPI_PWR) LED) RPI_OUT\<rparr>"
    using assms(1) by (simp add: state_change_simps)
qed

text \<open>
  Claim C9. Start in PoweredOff with the levels of PoweredOff (power-enable deasserted,
  shutdown-signal deasserted, LED off). The button is pressed, the boot runs its 200
  ticks, the button is released and pressed again, and the shutdown runs its 80 ticks.
  The run goes through Booting, Idle and ShuttingDown and ends in PoweredOff, and at the
  end the power-enable line, the shutdown-signal line and the LED have the levels they
  had at the start; the whole port register is as it was.
\<close>

theorem power_cycle_restores_outputs:
  assumes "state m = poweroff_state"
    and "\<not> power_enable_asserted m" and "\<not> shutdown_signal_asserted m" and "\<not> led_on m"
    and "(p1 XOR pinb m) AND BV BTN \<noteq> 0" and "p1 AND BV BTN \<noteq> 0"
    and "r AND BV BTN = 0"
    and "p2 AND BV BTN \<noteq> 0"
  shows "state (run (take 1 (power_cycle p1 r p2)) m) = boot_state
    \<and> state (run (take 201 (power_cycle p1 r p2)) m) = idle_state
    \<and> state (run (take 203 (power_cycle p1 r p2)) m) = shutdown_state
    \<and> state (run (power_cycle p1 r p2) m) = poweroff_state
    \<and> power_enable_asserted (run (power_cycle p1 r p2) m) = power_enable_asserted m
    \<and> shutdown_signal_asserted (run (power_cycle p1 r p2) m) = shutdown_signal_asserted m
    \<and> led_on (run (power_cycle p1 r p2) m) = led_on m
    \<and> PORTB (run (power_cycle p1 r p2) m) = PORTB m"
proof -
  note legs = power_cycle_legs [OF assms(1) assms(5-8)]
  have "PORTB (run (power_cycle p1 r p2) m) = PORTB m"
    unfolding legs(4) using assms(2-4)
    by (intro word_eq_bits) (auto simp: out_defs bit_macros pin_defs)
  moreover have "state (run (take 1 (power_cycle p1 r p2)) m) = boot_state"
    unfolding legs(1) by (rule state_state_change)
  moreover have "state (run (take 201 (power_cycle p1 r p2)) m) = idle_state"
    unfolding legs(2) by simp
  moreover have "state (run (take 203 (power_cycle p1 r p2)) m) = shutdown_state"
    unfolding legs(3) by simp
  moreover have "state (run (power_cycle p1 r p2) m) = poweroff_state"
    unfolding legs(4) using assms(1) by simp
  ultimately show ?thesis
    by (simp add: out_defs)
qed

text \<open>The cycle on the machine that \<open>setup\<close> leaves after a reset.\<close>

theorem power_cycle_restores_outputs_witness:
  "state (setup_mcu 0 reset_mcu) = poweroff_state
   \<and> \<not> power_enable_asserted (setup_mcu 0 reset_mcu)
   \<and> \<not> shutdown_signal_asserted (setup_mcu 0 reset_mcu)
   \<and> \<not> led_on (setup_mcu 0 reset_mcu)
   \<and> (4 XOR pinb (setup_mcu 0 reset_mcu)) AND BV BTN \<noteq> 0
   \<and> 4 AND BV BTN \<noteq> 0 \<and> 0 AND BV BTN = 0
   \<and> state (run (power_cycle 4 0 4) (setup_mcu 0 reset_mcu)) = poweroff_state
   \<and> PORTB (run (power_cycle 4 0 4) (setup_mcu 0 reset_mcu)) = PORTB (setup_mcu 0 reset_mcu)"
proof -
  let ?m = "setup_mcu 0 reset_mcu"
  have m: "?m = \<lparr>state = poweroff_state, timer = 0, seconds = 0, pinb = 0, PORTB = 1,
      DDRB = 19\<rparr>"
    by (simp add: setup_mcu_def Let_def state_change_simps reset_mcu_def HIGH_def LOW_def
        OUT_def IN_def BV_def pin_defs)
  have a: "state ?m = poweroff_state" by (simp add: m)
  have b: "\<not> power_enable_asserted ?m" by (simp add: m out_defs pin_defs)
  have c: "\<not> shutdown_signal_asserted ?m" by (simp add: m out_defs pin_defs)
  have d: "\<not> led_on ?m" by (simp add: m out_defs pin_defs)
  have e: "(4 XOR pinb ?m) AND BV BTN \<noteq> 0" by (simp add: m BV_def BTN_def)
  have f: "4 AND BV BTN \<noteq> 0" by (simp add: BV_def BTN_def)
  have g: "0 AND BV BTN = 0" by simp
  from power_cycle_restores_outputs [OF a b c d e f g f] a b c d e f g show ?thesis
    by blast
qed

end
